theory Spec2Isabelle
  imports Main "HOL-Library.Sublist"
begin

section \<open>Batch deletion of blog posts: the transaction of \<open>batch-delete.ts\<close>\<close>

text \<open>
  The development embeds \<open>batchDeleteBlogs\<close> of
  \<open>src/components/write/services/batch-delete.ts\<close>. The function is a straight
  sequence of awaited calls to collaborators that live in other modules
  (\<open>@/lib/auth\<close>, \<open>@/lib/github-client\<close>, \<open>sonner\<close>, \<open>@/consts\<close>); these are
  parameters of the model. Every awaited call either resolves or rejects; a rejection is
  the value \<open>Inl\<close> and ends the function, as the uncaught exception does. What the
  function does to the outside is recorded as a list of events, oldest first, each call
  with its arguments and with the answer it got.
\<close>

subsection \<open>Data\<close>

text \<open>
  JavaScript strings are modelled as byte strings holding their UTF-8 encoding. The
  function only concatenates and passes strings on, so the encoding is not observable.
\<close>

datatype error = Error string

text \<open>\<open>TreeItem\<close> of the client library; \<open>sha = None\<close> is the \<open>null\<close> that deletes a path.\<close>

record TreeItem =
  path :: string
  mode :: string
  type :: string
  sha :: "string option"

text \<open>The three fields of \<open>GITHUB_CONFIG\<close> the function reads.\<close>

record github_config =
  OWNER :: string
  REPO :: string
  BRANCH :: string

text \<open>
  Observable events. A call event carries the arguments in the order of the source and,
  last, the outcome. For \<open>getRef\<close>, \<open>createTree\<close> and \<open>createCommit\<close> the outcome is
  the \<open>sha\<close> field of the answer, the only field the function reads.
\<close>

datatype event =
    ToastInfo string
  | ToastSuccess string
  | EvGetAuthToken "error + string"
  | EvGetRef string string string string "error + string"
  | EvListRepoFilesRecursive string string string string string "error + string list"
  | EvCreateTree string string string "TreeItem list" string "error + string"
  | EvCreateCommit string string string string string "string list" "error + string"
  | EvUpdateRef string string string string string "error + unit"

text \<open>
  The collaborators. Each takes the arguments of the source and the state \<open>'w\<close> of the
  outside world (the repository, the clock, other writers) and returns its outcome and
  the next state of the world. Nothing is assumed about them.
\<close>

record 'w env =
  getAuthToken :: "'w \<Rightarrow> (error + string) \<times> 'w"
  getRef :: "string \<Rightarrow> string \<Rightarrow> string \<Rightarrow> string \<Rightarrow> 'w \<Rightarrow> (error + string) \<times> 'w"
  listRepoFilesRecursive ::
    "string \<Rightarrow> string \<Rightarrow> string \<Rightarrow> string \<Rightarrow> string \<Rightarrow> 'w \<Rightarrow> (error + string list) \<times> 'w"
  createTree ::
    "string \<Rightarrow> string \<Rightarrow> string \<Rightarrow> TreeItem list \<Rightarrow> string \<Rightarrow> 'w \<Rightarrow> (error + string) \<times> 'w"
  createCommit ::
    "string \<Rightarrow> string \<Rightarrow> string \<Rightarrow> string \<Rightarrow> string \<Rightarrow> string list \<Rightarrow> 'w
      \<Rightarrow> (error + string) \<times> 'w"
  updateRef :: "string \<Rightarrow> string \<Rightarrow> string \<Rightarrow> string \<Rightarrow> string \<Rightarrow> 'w \<Rightarrow> (error + unit) \<times> 'w"

subsection \<open>Asynchronous code as a state and exception monad\<close>

text \<open>The state is the event log so far and the world.\<close>

type_synonym 'w state = "event list \<times> 'w"

type_synonym ('w, 'a) io = "'w state \<Rightarrow> (error + 'a) \<times> 'w state"

definition throw :: "error \<Rightarrow> ('w, 'a) io" where
  "throw e s = (Inl e, s)"

text \<open>
  \<open>const x = await m; k x\<close>: a rejection of \<open>m\<close> skips the rest. A statement that is
  not awaited (a notification) is put in sequence by the same operator; it never rejects.
\<close>

definition await :: "('w, 'a) io \<Rightarrow> ('a \<Rightarrow> ('w, 'b) io) \<Rightarrow> ('w, 'b) io" where
  "await m k s = (case m s of (Inl e, s') \<Rightarrow> (Inl e, s') | (Inr a, s') \<Rightarrow> k a s')"

definition toast_info :: "string \<Rightarrow> ('w, unit) io" where
  "toast_info msg s = (case s of (tr, w) \<Rightarrow> (Inr (), (tr @ [ToastInfo msg], w)))"

definition toast_success :: "string \<Rightarrow> ('w, unit) io" where
  "toast_success msg s = (case s of (tr, w) \<Rightarrow> (Inr (), (tr @ [ToastSuccess msg], w)))"

text \<open>A call runs the collaborator on the world and logs the call with its outcome.\<close>

definition call_getAuthToken :: "'w env \<Rightarrow> ('w, string) io" where
  "call_getAuthToken env s =
     (case s of (tr, w) \<Rightarrow>
        (case getAuthToken env w of (r, w') \<Rightarrow> (r, (tr @ [EvGetAuthToken r], w'))))"

definition call_getRef ::
  "'w env \<Rightarrow> string \<Rightarrow> string \<Rightarrow> string \<Rightarrow> string \<Rightarrow> ('w, string) io" where
  "call_getRef env token owner repo ref s =
     (case s of (tr, w) \<Rightarrow>
        (case getRef env token owner repo ref w of
           (r, w') \<Rightarrow> (r, (tr @ [EvGetRef token owner repo ref r], w'))))"

definition call_listRepoFilesRecursive ::
  "'w env \<Rightarrow> string \<Rightarrow> string \<Rightarrow> string \<Rightarrow> string \<Rightarrow> string \<Rightarrow> ('w, string list) io" where
  "call_listRepoFilesRecursive env token owner repo dir branch s =
     (case s of (tr, w) \<Rightarrow>
        (case listRepoFilesRecursive env token owner repo dir branch w of
           (r, w') \<Rightarrow> (r, (tr @ [EvListRepoFilesRecursive token owner repo dir branch r], w'))))"

definition call_createTree ::
  "'w env \<Rightarrow> string \<Rightarrow> string \<Rightarrow> string \<Rightarrow> TreeItem list \<Rightarrow> string \<Rightarrow> ('w, string) io" where
  "call_createTree env token owner repo items base s =
     (case s of (tr, w) \<Rightarrow>
        (case createTree env token owner repo items base w of
           (r, w') \<Rightarrow> (r, (tr @ [EvCreateTree token owner repo items base r], w'))))"

definition call_createCommit ::
  "'w env \<Rightarrow> string \<Rightarrow> string \<Rightarrow> string \<Rightarrow> string \<Rightarrow> string \<Rightarrow> string list \<Rightarrow> ('w, string) io"
  where
  "call_createCommit env token owner repo message tree parents s =
     (case s of (tr, w) \<Rightarrow>
        (case createCommit env token owner repo message tree parents w of
           (r, w') \<Rightarrow> (r, (tr @ [EvCreateCommit token owner repo message tree parents r], w'))))"

definition call_updateRef ::
  "'w env \<Rightarrow> string \<Rightarrow> string \<Rightarrow> string \<Rightarrow> string \<Rightarrow> string \<Rightarrow> ('w, unit) io" where
  "call_updateRef env token owner repo ref new s =
     (case s of (tr, w) \<Rightarrow>
        (case updateRef env token owner repo ref new w of
           (r, w') \<Rightarrow> (r, (tr @ [EvUpdateRef token owner repo ref new r], w'))))"

subsection \<open>The string literals of the source\<close>

text \<open>
  The literals are Chinese; each constant is the UTF-8 encoding of the literal, whose code
  points are listed next to it.
\<close>

text \<open>\<open>'... slugs'\<close>: U+9700 U+8981, a space, \<open>slugs\<close>.\<close>

definition msg_need_slugs :: string where
  "msg_need_slugs =
     [CHR 0xE9, CHR 0x9C, CHR 0x80, CHR 0xE8, CHR 0xA6, CHR 0x81] @ '' slugs''"

text \<open>Line 11: U+6B63 U+5728 U+83B7 U+53D6 U+5206 U+652F U+4FE1 U+606F, three dots.\<close>

definition msg_fetching_branch :: string where
  "msg_fetching_branch =
     [CHR 0xE6, CHR 0xAD, CHR 0xA3, CHR 0xE5, CHR 0x9C, CHR 0xA8, CHR 0xE8, CHR 0x8E, CHR 0xB7,
      CHR 0xE5, CHR 0x8F, CHR 0x96, CHR 0xE5, CHR 0x88, CHR 0x86, CHR 0xE6, CHR 0x94, CHR 0xAF,
      CHR 0xE4, CHR 0xBF, CHR 0xA1, CHR 0xE6, CHR 0x81, CHR 0xAF] @ ''...''"

text \<open>Line 18: U+6B63 U+5728 U+5904 U+7406, a colon, a space, the slug, three dots.\<close>

definition msg_processing :: "string \<Rightarrow> string" where
  "msg_processing slug =
     [CHR 0xE6, CHR 0xAD, CHR 0xA3, CHR 0xE5, CHR 0x9C, CHR 0xA8, CHR 0xE5, CHR 0xA4, CHR 0x84,
      CHR 0xE7, CHR 0x90, CHR 0x86] @ '': '' @ slug @ ''...''"

text \<open>Line 45: U+6B63 U+5728 U+521B U+5EFA U+6587 U+4EF6 U+6811, three dots.\<close>

definition msg_creating_tree :: string where
  "msg_creating_tree =
     [CHR 0xE6, CHR 0xAD, CHR 0xA3, CHR 0xE5, CHR 0x9C, CHR 0xA8, CHR 0xE5, CHR 0x88, CHR 0x9B,
      CHR 0xE5, CHR 0xBB, CHR 0xBA, CHR 0xE6, CHR 0x96, CHR 0x87, CHR 0xE4, CHR 0xBB, CHR 0xB6,
      CHR 0xE6, CHR 0xA0, CHR 0x91] @ ''...''"

text \<open>Line 48, first form: U+5220 U+9664 U+6587 U+7AE0, a colon, a space.\<close>

definition msg_delete_one :: string where
  "msg_delete_one =
     [CHR 0xE5, CHR 0x88, CHR 0xA0, CHR 0xE9, CHR 0x99, CHR 0xA4, CHR 0xE6, CHR 0x96, CHR 0x87,
      CHR 0xE7, CHR 0xAB, CHR 0xA0] @ '': ''"

text \<open>Line 48, second form: U+6279 U+91CF U+5220 U+9664 U+6587 U+7AE0, a colon, a space.\<close>

definition msg_delete_many :: string where
  "msg_delete_many =
     [CHR 0xE6, CHR 0x89, CHR 0xB9, CHR 0xE9, CHR 0x87, CHR 0x8F, CHR 0xE5, CHR 0x88, CHR 0xA0,
      CHR 0xE9, CHR 0x99, CHR 0xA4, CHR 0xE6, CHR 0x96, CHR 0x87, CHR 0xE7, CHR 0xAB, CHR 0xA0]
     @ '': ''"

text \<open>Line 48, the end of the second form: a space, U+7BC7.\<close>

definition msg_pian :: string where
  "msg_pian = '' '' @ [CHR 0xE7, CHR 0xAF, CHR 0x87]"

text \<open>Line 49: U+6B63 U+5728 U+521B U+5EFA U+63D0 U+4EA4, three dots.\<close>

definition msg_creating_commit :: string where
  "msg_creating_commit =
     [CHR 0xE6, CHR 0xAD, CHR 0xA3, CHR 0xE5, CHR 0x9C, CHR 0xA8, CHR 0xE5, CHR 0x88, CHR 0x9B,
      CHR 0xE5, CHR 0xBB, CHR 0xBA, CHR 0xE6, CHR 0x8F, CHR 0x90, CHR 0xE4, CHR 0xBA, CHR 0xA4]
     @ ''...''"

text \<open>Line 52: U+6B63 U+5728 U+66F4 U+65B0 U+5206 U+652F, three dots.\<close>

definition msg_updating_branch :: string where
  "msg_updating_branch =
     [CHR 0xE6, CHR 0xAD, CHR 0xA3, CHR 0xE5, CHR 0x9C, CHR 0xA8, CHR 0xE6, CHR 0x9B, CHR 0xB4,
      CHR 0xE6, CHR 0x96, CHR 0xB0, CHR 0xE5, CHR 0x88, CHR 0x86, CHR 0xE6, CHR 0x94, CHR 0xAF]
     @ ''...''"

text \<open>
  Line 55: U+6279 U+91CF U+5220 U+9664 U+6210 U+529F U+FF01 U+8BF7 U+7B49 U+5F85 U+9875
  U+9762 U+90E8 U+7F72 U+540E U+5237 U+65B0.
\<close>

definition msg_success :: string where
  "msg_success =
     [CHR 0xE6, CHR 0x89, CHR 0xB9, CHR 0xE9, CHR 0x87, CHR 0x8F, CHR 0xE5, CHR 0x88, CHR 0xA0,
      CHR 0xE9, CHR 0x99, CHR 0xA4, CHR 0xE6, CHR 0x88, CHR 0x90, CHR 0xE5, CHR 0x8A, CHR 0x9F,
      CHR 0xEF, CHR 0xBC, CHR 0x81, CHR 0xE8, CHR 0xAF, CHR 0xB7, CHR 0xE7, CHR 0xAD, CHR 0x89,
      CHR 0xE5, CHR 0xBE, CHR 0x85, CHR 0xE9, CHR 0xA1, CHR 0xB5, CHR 0xE9, CHR 0x9D, CHR 0xA2,
      CHR 0xE9, CHR 0x83, CHR 0xA8, CHR 0xE7, CHR 0xBD, CHR 0xB2, CHR 0xE5, CHR 0x90, CHR 0x8E,
      CHR 0xE5, CHR 0x88, CHR 0xB7, CHR 0xE6, CHR 0x96, CHR 0xB0]"

subsection \<open>Numbers in template literals\<close>

text \<open>
  \<open>${slugs.length}\<close> prints an array length, a natural number below \<open>2^32\<close>, in
  decimal without leading zeros.
\<close>

definition digit_char :: "nat \<Rightarrow> char" where
  "digit_char d = char_of (48 + d)"

fun string_of_nat :: "nat \<Rightarrow> string" where
  "string_of_nat n =
     (if n < 10 then [digit_char n] else string_of_nat (n div 10) @ [digit_char (n mod 10)])"

declare string_of_nat.simps [simp del]

text \<open>Reading a decimal numeral back, to state what \<open>string_of_nat\<close> prints.\<close>

definition digit_val :: "char \<Rightarrow> nat" where
  "digit_val c = of_char c - 48"

definition nat_of_string :: "string \<Rightarrow> nat" where
  "nat_of_string cs = foldl (\<lambda>acc c. 10 * acc + digit_val c) 0 cs"

subsection \<open>The function\<close>

text \<open>Lines 19, 32 and 38: the media directory and the two content entries of a slug.\<close>

definition imagesPath :: "string \<Rightarrow> string" where
  "imagesPath slug = ''public/images/'' @ slug"

definition md_path :: "string \<Rightarrow> string" where
  "md_path slug = ''src/content/blog/'' @ slug @ ''.md''"

definition mdx_path :: "string \<Rightarrow> string" where
  "mdx_path slug = ''src/content/blog/'' @ slug @ ''.mdx''"

text \<open>The object literal pushed on lines 23, 31 and 37.\<close>

definition delete_item :: "string \<Rightarrow> TreeItem" where
  "delete_item p = \<lparr>path = p, mode = ''100644'', type = ''blob'', sha = None\<rparr>"

text \<open>
  Lines 17 to 43, the loop over the slugs; \<open>treeItems\<close> is the array the loop pushes
  to. A rejected listing leaves the loop and the function.
\<close>

fun process_slugs ::
  "'w env \<Rightarrow> github_config \<Rightarrow> string \<Rightarrow> string list \<Rightarrow> TreeItem list \<Rightarrow> ('w, TreeItem list) io"
  where
  "process_slugs env cfg token [] treeItems = (\<lambda>s. (Inr treeItems, s))"
| "process_slugs env cfg token (slug # rest) treeItems =
     await (toast_info (msg_processing slug)) (\<lambda>_.
     await (call_listRepoFilesRecursive env token (OWNER cfg) (REPO cfg) (imagesPath slug)
              (BRANCH cfg)) (\<lambda>imageFiles.
     process_slugs env cfg token rest
       (treeItems @ map delete_item imageFiles
          @ [delete_item (md_path slug), delete_item (mdx_path slug)])))"

text \<open>Line 48.\<close>

definition commit_message :: "string list \<Rightarrow> string" where
  "commit_message slugs =
     (if length slugs = 1 then msg_delete_one @ slugs ! 0
      else msg_delete_many @ string_of_nat (length slugs) @ msg_pian)"

text \<open>
  The whole function. The argument is \<open>None\<close> when the caller passes \<open>null\<close> or
  \<open>undefined\<close>, which line 7 tests with \<open>!slugs\<close>.
\<close>

definition batchDeleteBlogs ::
  "'w env \<Rightarrow> github_config \<Rightarrow> string list option \<Rightarrow> ('w, unit) io" where
  "batchDeleteBlogs env cfg slugs_arg =
     (case slugs_arg of
        None \<Rightarrow> throw (Error msg_need_slugs)
      | Some slugs \<Rightarrow>
          if length slugs = 0 then throw (Error msg_need_slugs)
          else
            await (call_getAuthToken env) (\<lambda>token.
            await (toast_info msg_fetching_branch) (\<lambda>_.
            await (call_getRef env token (OWNER cfg) (REPO cfg) (''heads/'' @ BRANCH cfg))
              (\<lambda>latestCommitSha.
            await (process_slugs env cfg token slugs []) (\<lambda>treeItems.
            await (toast_info msg_creating_tree) (\<lambda>_.
            await (call_createTree env token (OWNER cfg) (REPO cfg) treeItems latestCommitSha)
              (\<lambda>treeSha.
            await (toast_info msg_creating_commit) (\<lambda>_.
            await (call_createCommit env token (OWNER cfg) (REPO cfg) (commit_message slugs)
                     treeSha [latestCommitSha]) (\<lambda>commitSha.
            await (toast_info msg_updating_branch) (\<lambda>_.
            await (call_updateRef env token (OWNER cfg) (REPO cfg) (''heads/'' @ BRANCH cfg)
                     commitSha) (\<lambda>_.
            toast_success msg_success)))))))))))"

text \<open>A transaction starts with an empty log.\<close>

definition run ::
  "'w env \<Rightarrow> github_config \<Rightarrow> string list option \<Rightarrow> 'w \<Rightarrow> (error + unit) \<times> event list \<times> 'w"
  where
  "run env cfg slugs_arg w = batchDeleteBlogs env cfg slugs_arg ([], w)"

section \<open>Observing a run\<close>

text \<open>The calls to the repository host, that is, the five functions of the client library.\<close>

fun is_storage_call :: "event \<Rightarrow> bool" where
  "is_storage_call (EvGetRef _ _ _ _ _) = True"
| "is_storage_call (EvListRepoFilesRecursive _ _ _ _ _ _) = True"
| "is_storage_call (EvCreateTree _ _ _ _ _ _) = True"
| "is_storage_call (EvCreateCommit _ _ _ _ _ _ _) = True"
| "is_storage_call (EvUpdateRef _ _ _ _ _ _) = True"
| "is_storage_call _ = False"

fun is_getRef :: "event \<Rightarrow> bool" where
  "is_getRef (EvGetRef _ _ _ _ _) = True"
| "is_getRef _ = False"

fun is_createTree :: "event \<Rightarrow> bool" where
  "is_createTree (EvCreateTree _ _ _ _ _ _) = True"
| "is_createTree _ = False"

fun is_updateRef :: "event \<Rightarrow> bool" where
  "is_updateRef (EvUpdateRef _ _ _ _ _ _) = True"
| "is_updateRef _ = False"

fun is_toast :: "event \<Rightarrow> bool" where
  "is_toast (ToastInfo _) = True"
| "is_toast (ToastSuccess _) = True"
| "is_toast _ = False"

fun is_success_toast :: "event \<Rightarrow> bool" where
  "is_success_toast (ToastSuccess _) = True"
| "is_success_toast _ = False"

text \<open>The notifications of a run, in the order they were shown.\<close>

definition notifications :: "event list \<Rightarrow> event list" where
  "notifications tr = filter is_toast tr"

text \<open>The commit hashes that the branch-head reads of a run returned.\<close>

fun head_read :: "event \<Rightarrow> string list" where
  "head_read (EvGetRef _ _ _ _ (Inr commit)) = [commit]"
| "head_read _ = []"

definition head_reads :: "event list \<Rightarrow> string list" where
  "head_reads tr = concat (map head_read tr)"

text \<open>The listings that resolved: the directory asked for and the paths found.\<close>

fun listing :: "event \<Rightarrow> (string \<times> string list) list" where
  "listing (EvListRepoFilesRecursive _ _ _ dir _ (Inr files)) = [(dir, files)]"
| "listing _ = []"

definition listed :: "event list \<Rightarrow> (string \<times> string list) list" where
  "listed tr = concat (map listing tr)"


text \<open>The mutation sets submitted to \<open>createTree\<close>, and the base commits they were submitted on.\<close>

fun tree_request :: "event \<Rightarrow> (TreeItem list \<times> string) list" where
  "tree_request (EvCreateTree _ _ _ items base _) = [(items, base)]"
| "tree_request _ = []"

definition submitted :: "event list \<Rightarrow> TreeItem list list" where
  "submitted tr = map fst (concat (map tree_request tr))"

definition tree_bases :: "event list \<Rightarrow> string list" where
  "tree_bases tr = map snd (concat (map tree_request tr))"

text \<open>The requests to \<open>createCommit\<close>: message, parents and outcome.\<close>

fun commit_request :: "event \<Rightarrow> (string \<times> string list \<times> (error + string)) list" where
  "commit_request (EvCreateCommit _ _ _ message _ parents out) = [(message, parents, out)]"
| "commit_request _ = []"

definition commit_requests :: "event list \<Rightarrow> (string \<times> string list \<times> (error + string)) list" where
  "commit_requests tr = concat (map commit_request tr)"

definition commit_messages :: "event list \<Rightarrow> string list" where
  "commit_messages tr = map fst (commit_requests tr)"

definition commit_parents :: "event list \<Rightarrow> string list list" where
  "commit_parents tr = map (\<lambda>r. fst (snd r)) (commit_requests tr)"

text \<open>The commits a run created: parents and hash of every request that resolved.\<close>

fun created :: "string \<times> string list \<times> (error + string) \<Rightarrow> (string list \<times> string) list" where
  "created (_, parents, Inr commit) = [(parents, commit)]"
| "created (_, _, Inl _) = []"

definition created_commits :: "event list \<Rightarrow> (string list \<times> string) list" where
  "created_commits tr = concat (map created (commit_requests tr))"

text \<open>A rejected tree or commit construction.\<close>

fun construction_rejected :: "event \<Rightarrow> bool" where
  "construction_rejected (EvCreateTree _ _ _ _ _ (Inl _)) = True"
| "construction_rejected (EvCreateCommit _ _ _ _ _ _ (Inl _)) = True"
| "construction_rejected _ = False"

text \<open>
  The storage calls between the first branch-head read and the first tree creation after
  it.
\<close>

definition between_read_and_tree :: "event list \<Rightarrow> event list" where
  "between_read_and_tree tr =
     takeWhile (\<lambda>ev. \<not> is_createTree ev)
       (tl (dropWhile (\<lambda>ev. \<not> is_getRef ev) (filter is_storage_call tr)))"

text \<open>
  The stage notifications as the interface describes them: resolving references, one per
  slug, tree creation, commit creation, reference update.
\<close>

definition stage_notifications :: "string list \<Rightarrow> event list" where
  "stage_notifications slugs =
     ToastInfo msg_fetching_branch # map (\<lambda>slug. ToastInfo (msg_processing slug)) slugs
     @ [ToastInfo msg_creating_tree, ToastInfo msg_creating_commit,
        ToastInfo msg_updating_branch]"

text \<open>
  Whether the collaborators that only read or create objects leave an observation
  \<open>obs\<close> of the world (such as the commit a branch points to) as it is. Nothing is
  said about \<open>updateRef\<close>.
\<close>

definition leaves_alone :: "('w \<Rightarrow> 'h) \<Rightarrow> 'w env \<Rightarrow> bool" where
  "leaves_alone obs env \<longleftrightarrow>
     (\<forall>w. obs (snd (getAuthToken env w)) = obs w) \<and>
     (\<forall>t ow rp rf w. obs (snd (getRef env t ow rp rf w)) = obs w) \<and>
     (\<forall>t ow rp d b w. obs (snd (listRepoFilesRecursive env t ow rp d b w)) = obs w) \<and>
     (\<forall>t ow rp its b w. obs (snd (createTree env t ow rp its b w)) = obs w) \<and>
     (\<forall>t ow rp m tr ps w. obs (snd (createCommit env t ow rp m tr ps w)) = obs w)"

text \<open>A listing call, resolved or not.\<close>

fun is_listing :: "event \<Rightarrow> bool" where
  "is_listing (EvListRepoFilesRecursive _ _ _ _ _ _) = True"
| "is_listing _ = False"


text \<open>A call that the host rejected.\<close>

fun rejected_call :: "event \<Rightarrow> bool" where
  "rejected_call (EvGetAuthToken (Inl _)) = True"
| "rejected_call (EvGetRef _ _ _ _ (Inl _)) = True"
| "rejected_call (EvListRepoFilesRecursive _ _ _ _ _ (Inl _)) = True"
| "rejected_call (EvCreateTree _ _ _ _ _ (Inl _)) = True"
| "rejected_call (EvCreateCommit _ _ _ _ _ _ (Inl _)) = True"
| "rejected_call (EvUpdateRef _ _ _ _ _ (Inl _)) = True"
| "rejected_call _ = False"

text \<open>A rejected call other than the reference update.\<close>

definition rejected_before_update :: "event \<Rightarrow> bool" where
  "rejected_before_update ev \<longleftrightarrow> rejected_call ev \<and> \<not> is_updateRef ev"

text \<open>
  Hosts on which the credential request, the two reads and the two object constructors
  always resolve, and hosts on which the reference update always resolves as well.
\<close>

definition constructs :: "'w env \<Rightarrow> bool" where
  "constructs env \<longleftrightarrow>
     (\<forall>w. \<not> isl (fst (getAuthToken env w))) \<and>
     (\<forall>t ow rp rf w. \<not> isl (fst (getRef env t ow rp rf w))) \<and>
     (\<forall>t ow rp d b w. \<not> isl (fst (listRepoFilesRecursive env t ow rp d b w))) \<and>
     (\<forall>t ow rp its b w. \<not> isl (fst (createTree env t ow rp its b w))) \<and>
     (\<forall>t ow rp m tr ps w. \<not> isl (fst (createCommit env t ow rp m tr ps w)))"

definition always_resolves :: "'w env \<Rightarrow> bool" where
  "always_resolves env \<longleftrightarrow>
     constructs env \<and> (\<forall>t ow rp rf new w. \<not> isl (fst (updateRef env t ow rp rf new w)))"

text \<open>
  Whether a notification announces a call: the message is the one the source shows right
  before that call. For a listing the slug is what follows \<open>public/images/\<close> in the
  directory asked for.
\<close>

fun announces :: "string \<Rightarrow> event \<Rightarrow> bool" where
  "announces m (EvGetRef _ _ _ _ _) = (m = msg_fetching_branch)"
| "announces m (EvListRepoFilesRecursive _ _ _ dir _ _) =
     (dir = imagesPath (drop (length ''public/images/'') dir) \<and>
      m = msg_processing (drop (length ''public/images/'') dir))"
| "announces m (EvCreateTree _ _ _ _ _ _) = (m = msg_creating_tree)"
| "announces m (EvCreateCommit _ _ _ _ _ _ _) = (m = msg_creating_commit)"
| "announces m (EvUpdateRef _ _ _ _ _ _) = (m = msg_updating_branch)"
| "announces m _ = False"

text \<open>
  A log in which every progress notification is followed at once by the call it announces
  and no call to the repository host stands without its notification right before it.
  The credential request and the success notification are not tied to a stage.
\<close>

fun announced :: "event list \<Rightarrow> bool" where
  "announced [] = True"
| "announced (EvGetAuthToken _ # tr) = announced tr"
| "announced (ToastSuccess _ # tr) = announced tr"
| "announced (ToastInfo m # ev # tr) = (announces m ev \<and> announced tr)"
| "announced _ = False"

section \<open>An example repository host\<close>

text \<open>
  A small host to run the function on: the world is the commit the branch points to and
  the files of the repository. The listing returns the files below a directory, the
  object constructors return fixed hashes, and \<open>updateRef\<close> moves the branch.
\<close>

record remote =
  remote_head :: string
  remote_files :: "string list"

definition example_env :: "remote env" where
  "example_env =
     \<lparr>getAuthToken = (\<lambda>w. (Inr ''token'', w)),
      getRef = (\<lambda>token owner repo ref w. (Inr (remote_head w), w)),
      listRepoFilesRecursive =
        (\<lambda>token owner repo dir branch w.
           (Inr (filter (prefix (dir @ ''/'')) (remote_files w)), w)),
      createTree = (\<lambda>token owner repo items base w. (Inr ''tree1'', w)),
      createCommit = (\<lambda>token owner repo message tree parents w. (Inr ''commit1'', w)),
      updateRef = (\<lambda>token owner repo ref new w. (Inr (), w\<lparr>remote_head := new\<rparr>))\<rparr>"

definition example_cfg :: github_config where
  "example_cfg = \<lparr>OWNER = ''owner'', REPO = ''blog'', BRANCH = ''main''\<rparr>"

definition example_remote :: remote where
  "example_remote =
     \<lparr>remote_head = ''commit0'',
      remote_files =
        [''public/images/post-a/img.png'', ''public/images/post-a/draft/fig.png'',
         ''src/content/blog/post-a.md'', ''src/content/blog/post-a/draft.md'']\<rparr>"

text \<open>Hosts on which one of the calls is rejected.\<close>

definition rejected :: error where
  "rejected = Error ''rejected''"

definition no_credential_env :: "remote env" where
  "no_credential_env = example_env\<lparr>getAuthToken := (\<lambda>w. (Inl rejected, w))\<rparr>"

definition tree_rejecting_env :: "remote env" where
  "tree_rejecting_env =
     example_env\<lparr>createTree := (\<lambda>token owner repo items base w. (Inl rejected, w))\<rparr>"

definition commit_rejecting_env :: "remote env" where
  "commit_rejecting_env =
     example_env
       \<lparr>createCommit := (\<lambda>token owner repo message tree parents w. (Inl rejected, w))\<rparr>"

text \<open>The events the example host sees when \<open>post-a\<close> is deleted.\<close>

definition example_trace :: "event list" where
  "example_trace =
     [EvGetAuthToken (Inr ''token''),
      ToastInfo msg_fetching_branch,
      EvGetRef ''token'' ''owner'' ''blog'' ''heads/main'' (Inr ''commit0''),
      ToastInfo (msg_processing ''post-a''),
      EvListRepoFilesRecursive ''token'' ''owner'' ''blog'' ''public/images/post-a'' ''main''
        (Inr [''public/images/post-a/img.png'', ''public/images/post-a/draft/fig.png'']),
      ToastInfo msg_creating_tree,
      EvCreateTree ''token'' ''owner'' ''blog''
        [delete_item ''public/images/post-a/img.png'',
         delete_item ''public/images/post-a/draft/fig.png'',
         delete_item ''src/content/blog/post-a.md'',
         delete_item ''src/content/blog/post-a.mdx'']
        ''commit0'' (Inr ''tree1''),
      ToastInfo msg_creating_commit,
      EvCreateCommit ''token'' ''owner'' ''blog'' (msg_delete_one @ ''post-a'') ''tree1''
        [''commit0''] (Inr ''commit1''),
      ToastInfo msg_updating_branch,
      EvUpdateRef ''token'' ''owner'' ''blog'' ''heads/main'' ''commit1'' (Inr ()),
      ToastSuccess msg_success]"

text \<open>
  The events when \<open>post-a\<close> and \<open>post-a/draft\<close> are deleted together. The media
  directory of the second slug lies inside that of the first.
\<close>

definition nested_trace :: "event list" where
  "nested_trace =
     [EvGetAuthToken (Inr ''token''),
      ToastInfo msg_fetching_branch,
      EvGetRef ''token'' ''owner'' ''blog'' ''heads/main'' (Inr ''commit0''),
      ToastInfo (msg_processing ''post-a''),
      EvListRepoFilesRecursive ''token'' ''owner'' ''blog'' ''public/images/post-a'' ''main''
        (Inr [''public/images/post-a/img.png'', ''public/images/post-a/draft/fig.png'']),
      ToastInfo (msg_processing ''post-a/draft''),
      EvListRepoFilesRecursive ''token'' ''owner'' ''blog'' ''public/images/post-a/draft''
        ''main'' (Inr [''public/images/post-a/draft/fig.png'']),
      ToastInfo msg_creating_tree,
      EvCreateTree ''token'' ''owner'' ''blog''
        [delete_item ''public/images/post-a/img.png'',
         delete_item ''public/images/post-a/draft/fig.png'',
         delete_item ''src/content/blog/post-a.md'',
         delete_item ''src/content/blog/post-a.mdx'',
         delete_item ''public/images/post-a/draft/fig.png'',
         delete_item ''src/content/blog/post-a/draft.md'',
         delete_item ''src/content/blog/post-a/draft.mdx'']
        ''commit0'' (Inr ''tree1''),
      ToastInfo msg_creating_commit,
      EvCreateCommit ''token'' ''owner'' ''blog''
        (msg_delete_many @ ''2'' @ msg_pian) ''tree1'' [''commit0''] (Inr ''commit1''),
      ToastInfo msg_updating_branch,
      EvUpdateRef ''token'' ''owner'' ''blog'' ''heads/main'' ''commit1'' (Inr ()),
      ToastSuccess msg_success]"


text \<open>The events when the host rejects the tree, and when it rejects the commit.\<close>

definition tree_rejected_trace :: "event list" where
  "tree_rejected_trace =
     [EvGetAuthToken (Inr ''token''),
      ToastInfo msg_fetching_branch,
      EvGetRef ''token'' ''owner'' ''blog'' ''heads/main'' (Inr ''commit0''),
      ToastInfo (msg_processing ''post-b''),
      EvListRepoFilesRecursive ''token'' ''owner'' ''blog'' ''public/images/post-b'' ''main''
        (Inr []),
      ToastInfo msg_creating_tree,
      EvCreateTree ''token'' ''owner'' ''blog''
        [delete_item ''src/content/blog/post-b.md'',
         delete_item ''src/content/blog/post-b.mdx'']
        ''commit0'' (Inl rejected)]"

definition commit_rejected_trace :: "event list" where
  "commit_rejected_trace =
     [EvGetAuthToken (Inr ''token''),
      ToastInfo msg_fetching_branch,
      EvGetRef ''token'' ''owner'' ''blog'' ''heads/main'' (Inr ''commit0''),
      ToastInfo (msg_processing ''post-b''),
      EvListRepoFilesRecursive ''token'' ''owner'' ''blog'' ''public/images/post-b'' ''main''
        (Inr []),
      ToastInfo msg_creating_tree,
      EvCreateTree ''token'' ''owner'' ''blog''
        [delete_item ''src/content/blog/post-b.md'',
         delete_item ''src/content/blog/post-b.mdx'']
        ''commit0'' (Inr ''tree1''),
      ToastInfo msg_creating_commit,
      EvCreateCommit ''token'' ''owner'' ''blog'' (msg_delete_one @ ''post-b'') ''tree1''
        [''commit0''] (Inl rejected)]"

section \<open>The reference advancer\<close>

text \<open>
  \<open>updateRef\<close> of \<open>@/lib/github-client\<close>, the function that moves the branch, is not
  among the sources, and \<open>batchDeleteBlogs\<close> hands it only the reference name and the new
  commit, never the commit it expects the branch to be at. What the advance does on a
  mismatch can therefore only be stated on a model of the specification's advancer; the
  definitions of this section are that model and say nothing about the client library.
\<close>

text \<open>
  Modelled from the spec: the commit objects of the external store, which is missing from
  the sources. A commit is a tree hash, its parent commits and a message (section 3 and
  the glossary).
\<close>

record commit_object =
  commit_tree :: string
  commit_parent_list :: "string list"
  commit_text :: string

text \<open>
  Modelled from the spec: the external store, which is missing from the sources. It holds
  the named branch pointers, the only mutable part, and the immutable commits by hash
  (section 5 and the glossary).
\<close>

record store =
  branches :: "string \<rightharpoonup> string"
  commits :: "string \<rightharpoonup> commit_object"

text \<open>Modelled from the spec: the two outcomes of the advancer of section 4.4.\<close>

datatype advance_outcome = Success | Conflict

text \<open>
  Modelled from the spec: the Reference Advancer of section 4.4, standing for the missing
  \<open>updateRef\<close>. The branch pointer moves to \<open>newCommit\<close> only if it currently equals
  \<open>expectedOldCommit\<close>; on a mismatch the outcome is a conflict and the store, with the
  new commit object in it, stays as it is.
\<close>

definition advance :: "string \<Rightarrow> string \<Rightarrow> string \<Rightarrow> store \<Rightarrow> advance_outcome \<times> store" where
  "advance branchName expectedOldCommit newCommit st =
     (if branches st branchName = Some expectedOldCommit
      then (Success, st\<lparr>branches := (branches st)(branchName \<mapsto> newCommit)\<rparr>)
      else (Conflict, st))"

text \<open>
  Modelled from the spec: reachability in the missing store, after the glossary (a commit
  references its parent commits). A commit reaches itself and whatever its parents reach.
\<close>

inductive reachable :: "store \<Rightarrow> string \<Rightarrow> string \<Rightarrow> bool" for st :: store where
  here: "reachable st c c"
| parent:
    "commits st c = Some obj \<Longrightarrow> p \<in> set (commit_parent_list obj) \<Longrightarrow> reachable st p d \<Longrightarrow>
     reachable st c d"

text \<open>
  Modelled from the spec: what readers of a branch can see in the missing store, the
  commits reachable from the commit the branch points to.
\<close>

definition reachable_from_branch :: "store \<Rightarrow> string \<Rightarrow> string \<Rightarrow> bool" where
  "reachable_from_branch st branchName c =
     (case branches st branchName of None \<Rightarrow> False | Some h \<Rightarrow> reachable st h c)"

text \<open>
  A store whose branch has moved from \<open>commit0\<close> to \<open>commit1\<close> while \<open>commit2\<close> was
  being built on \<open>commit0\<close>.
\<close>

definition example_store :: store where
  "example_store =
     \<lparr>branches = [''main'' \<mapsto> ''commit1''],
      commits =
        [''commit0'' \<mapsto>
           \<lparr>commit_tree = ''tree0'', commit_parent_list = [], commit_text = ''first''\<rparr>,
         ''commit1'' \<mapsto>
           \<lparr>commit_tree = ''tree1'', commit_parent_list = [''commit0''],
              commit_text = ''second''\<rparr>,
         ''commit2'' \<mapsto>
           \<lparr>commit_tree = ''tree2'', commit_parent_list = [''commit0''],
              commit_text = ''other''\<rparr>]\<rparr>"

section \<open>The shape of a run\<close>

text \<open>The listing calls of the loop, without the notifications.\<close>

definition listing_events ::
  "github_config \<Rightarrow> string \<Rightarrow> (string \<times> (error + string list)) list \<Rightarrow> event list" where
  "listing_events cfg token steps =
     map (\<lambda>(slug, out).
        EvListRepoFilesRecursive token (OWNER cfg) (REPO cfg) (imagesPath slug) (BRANCH cfg) out)
       steps"

text \<open>The events of the loop, one pair for each slug it reached.\<close>

definition loop_events ::
  "github_config \<Rightarrow> string \<Rightarrow> (string \<times> (error + string list)) list \<Rightarrow> event list" where
  "loop_events cfg token steps =
     concat (map (\<lambda>(slug, out).
        [ToastInfo (msg_processing slug),
         EvListRepoFilesRecursive token (OWNER cfg) (REPO cfg) (imagesPath slug) (BRANCH cfg)
           out]) steps)"

definition slug_items :: "string \<Rightarrow> string list \<Rightarrow> TreeItem list" where
  "slug_items slug files =
     map delete_item files @ [delete_item (md_path slug), delete_item (mdx_path slug)]"

definition mutation_set :: "string list \<Rightarrow> string list list \<Rightarrow> TreeItem list" where
  "mutation_set slugs fs = concat (map2 slug_items slugs fs)"

definition preamble :: "github_config \<Rightarrow> string \<Rightarrow> (error + string) \<Rightarrow> event list" where
  "preamble cfg token out =
     [EvGetAuthToken (Inr token), ToastInfo msg_fetching_branch,
      EvGetRef token (OWNER cfg) (REPO cfg) (''heads/'' @ BRANCH cfg) out]"

definition resolved ::
  "github_config \<Rightarrow> string \<Rightarrow> string \<Rightarrow> string list \<Rightarrow> string list list \<Rightarrow> event list" where
  "resolved cfg token base slugs fs =
     preamble cfg token (Inr base) @ loop_events cfg token (zip slugs (map Inr fs))"

definition tree_step ::
  "github_config \<Rightarrow> string \<Rightarrow> string \<Rightarrow> string list \<Rightarrow> string list list \<Rightarrow> (error + string)
    \<Rightarrow> event list" where
  "tree_step cfg token base slugs fs out =
     [ToastInfo msg_creating_tree,
      EvCreateTree token (OWNER cfg) (REPO cfg) (mutation_set slugs fs) base out]"

definition commit_step ::
  "github_config \<Rightarrow> string \<Rightarrow> string \<Rightarrow> string list \<Rightarrow> string \<Rightarrow> (error + string) \<Rightarrow> event list"
  where
  "commit_step cfg token base slugs tree out =
     [ToastInfo msg_creating_commit,
      EvCreateCommit token (OWNER cfg) (REPO cfg) (commit_message slugs) tree [base] out]"

definition update_step ::
  "github_config \<Rightarrow> string \<Rightarrow> string \<Rightarrow> (error + unit) \<Rightarrow> event list" where
  "update_step cfg token commit out =
     [ToastInfo msg_updating_branch,
      EvUpdateRef token (OWNER cfg) (REPO cfg) (''heads/'' @ BRANCH cfg) commit out]"

text \<open>
  The seven ways a run on a non-empty slug list can go: a rejection at one of the six
  kinds of call, or success. \<open>fs\<close> are the listings that resolved, in slug order.
\<close>

inductive transaction ::
  "github_config \<Rightarrow> string list \<Rightarrow> event list \<Rightarrow> (error + unit) \<Rightarrow> bool"
  for cfg :: github_config and slugs :: "string list" where
  auth_failed: "transaction cfg slugs [EvGetAuthToken (Inl e)] (Inl e)"
| ref_failed: "transaction cfg slugs (preamble cfg token (Inl e)) (Inl e)"
| listing_failed:
    "length fs < length slugs \<Longrightarrow>
     transaction cfg slugs
       (preamble cfg token (Inr base) @ loop_events cfg token (zip slugs (map Inr fs @ [Inl e])))
       (Inl e)"
| tree_failed:
    "length fs = length slugs \<Longrightarrow>
     transaction cfg slugs
       (resolved cfg token base slugs fs @ tree_step cfg token base slugs fs (Inl e)) (Inl e)"
| commit_failed:
    "length fs = length slugs \<Longrightarrow>
     transaction cfg slugs
       (resolved cfg token base slugs fs @ tree_step cfg token base slugs fs (Inr tree)
        @ commit_step cfg token base slugs tree (Inl e)) (Inl e)"
| update_failed:
    "length fs = length slugs \<Longrightarrow>
     transaction cfg slugs
       (resolved cfg token base slugs fs @ tree_step cfg token base slugs fs (Inr tree)
        @ commit_step cfg token base slugs tree (Inr commit)
        @ update_step cfg token commit (Inl e)) (Inl e)"
| succeeded:
    "length fs = length slugs \<Longrightarrow>
     transaction cfg slugs
       (resolved cfg token base slugs fs @ tree_step cfg token base slugs fs (Inr tree)
        @ commit_step cfg token base slugs tree (Inr commit)
        @ update_step cfg token commit (Inr ()) @ [ToastSuccess msg_success]) (Inr ())"

text \<open>An invariant of the state that a computation keeps.\<close>

definition preserves :: "('w state \<Rightarrow> bool) \<Rightarrow> ('w, 'a) io \<Rightarrow> bool" where
  "preserves I m \<longleftrightarrow> (\<forall>s r s'. I s \<longrightarrow> m s = (r, s') \<longrightarrow> I s')"

text \<open>
  The invariant for the branch: the observation still has the value \<open>h\<close>, or the log
  shows a call of \<open>updateRef\<close>.
\<close>

definition untouched :: "('w \<Rightarrow> 'h) \<Rightarrow> 'h \<Rightarrow> 'w state \<Rightarrow> bool" where
  "untouched obs h s \<longleftrightarrow> obs (snd s) = h \<or> list_ex is_updateRef (fst s)"

text \<open>
  No event with the property \<open>P\<close> can come from the host \<open>env\<close>, whatever the arguments
  and the world; and the invariant that the log has no such event.
\<close>

definition never :: "(event \<Rightarrow> bool) \<Rightarrow> 'w env \<Rightarrow> bool" where
  "never P env \<longleftrightarrow>
     (\<forall>m. \<not> P (ToastInfo m)) \<and> (\<forall>m. \<not> P (ToastSuccess m)) \<and>
     (\<forall>w. \<not> P (EvGetAuthToken (fst (getAuthToken env w)))) \<and>
     (\<forall>t ow rp rf w. \<not> P (EvGetRef t ow rp rf (fst (getRef env t ow rp rf w)))) \<and>
     (\<forall>t ow rp d b w.
        \<not> P (EvListRepoFilesRecursive t ow rp d b
               (fst (listRepoFilesRecursive env t ow rp d b w)))) \<and>
     (\<forall>t ow rp its b w. \<not> P (EvCreateTree t ow rp its b (fst (createTree env t ow rp its b w)))) \<and>
     (\<forall>t ow rp m tr ps w.
        \<not> P (EvCreateCommit t ow rp m tr ps (fst (createCommit env t ow rp m tr ps w)))) \<and>
     (\<forall>t ow rp rf new w. \<not> P (EvUpdateRef t ow rp rf new (fst (updateRef env t ow rp rf new w))))"

definition quiet :: "(event \<Rightarrow> bool) \<Rightarrow> 'w state \<Rightarrow> bool" where
  "quiet P s \<longleftrightarrow> \<not> list_ex P (fst s)"

section \<open>Every run has one of the seven shapes\<close>

lemma loop_events_Nil [simp]: "loop_events cfg token [] = []"
  by (simp add: loop_events_def)

lemma loop_events_Cons [simp]:
  "loop_events cfg token ((slug, out) # steps) =
     ToastInfo (msg_processing slug)
     # EvListRepoFilesRecursive token (OWNER cfg) (REPO cfg) (imagesPath slug) (BRANCH cfg) out
     # loop_events cfg token steps"
  by (simp add: loop_events_def)

lemma process_slugs_shape:
  "process_slugs env cfg token slugs acc (tr, w) = (res, tr', w') \<Longrightarrow>
   \<exists>fs. length fs \<le> length slugs \<and>
     (case res of
        Inr items \<Rightarrow>
          length fs = length slugs \<and>
          tr' = tr @ loop_events cfg token (zip slugs (map Inr fs)) \<and>
          items = acc @ concat (map2 slug_items slugs fs)
      | Inl e \<Rightarrow>
          length fs < length slugs \<and>
          tr' = tr @ loop_events cfg token (zip slugs (map Inr fs @ [Inl e])))"
proof (induction slugs arbitrary: acc tr w)
  case Nil
  then show ?case by (cases res) auto
next
  case (Cons slug rest)
  obtain out w1 where l: "listRepoFilesRecursive env token (OWNER cfg) (REPO cfg) (imagesPath slug) (BRANCH cfg) w = (out, w1)"
    by (cases "listRepoFilesRecursive env token (OWNER cfg) (REPO cfg) (imagesPath slug) (BRANCH cfg) w")
  show ?case
  proof (cases out)
    case (Inl e)
    with Cons.prems l have "res = Inl e" and "tr' = tr @ loop_events cfg token [(slug, Inl e)]"
      by (auto simp: await_def toast_info_def call_listRepoFilesRecursive_def)
    then show ?thesis by (intro exI [of _ "[]"]) simp
  next
    case (Inr files)
    let ?tr1 = "tr @ loop_events cfg token [(slug, Inr files)]"
    from Cons.prems l Inr have
      "process_slugs env cfg token rest (acc @ slug_items slug files) (?tr1, w1) = (res, tr', w')"
      by (simp add: await_def toast_info_def call_listRepoFilesRecursive_def slug_items_def)
    from Cons.IH [OF this] obtain fs where fs: "length fs \<le> length rest"
      "(case res of
        Inr items \<Rightarrow>
          length fs = length rest \<and>
          tr' = ?tr1 @ loop_events cfg token (zip rest (map Inr fs)) \<and>
          items = (acc @ slug_items slug files) @ concat (map2 slug_items rest fs)
      | Inl e \<Rightarrow>
          length fs < length rest \<and>
          tr' = ?tr1 @ loop_events cfg token (zip rest (map Inr fs @ [Inl e])))"
      by blast
    show ?thesis
      using fs by (intro exI [of _ "files # fs"]) (cases res; simp)
  qed
qed


lemma run_transaction:
  assumes "slugs \<noteq> []" and "run env cfg (Some slugs) w = (res, tr, w')"
  shows "transaction cfg slugs tr res"
proof -
  obtain r1 w1 where c1: "getAuthToken env w = (r1, w1)"
    by (cases "getAuthToken env w")
  show ?thesis
  proof (cases r1)
    case (Inl e)
    with assms c1 have "res = Inl e" "tr = [EvGetAuthToken (Inl e)]"
      by (auto simp: run_def batchDeleteBlogs_def await_def call_getAuthToken_def)
    then show ?thesis by (simp add: auth_failed)
  next
    case tok: (Inr token)
    obtain r2 w2 where c2:
      "getRef env token (OWNER cfg) (REPO cfg) (''heads/'' @ BRANCH cfg) w1 = (r2, w2)"
      by (cases "getRef env token (OWNER cfg) (REPO cfg) (''heads/'' @ BRANCH cfg) w1")
    show ?thesis
    proof (cases r2)
      case (Inl e)
      with assms c1 tok c2 have "res = Inl e" "tr = preamble cfg token (Inl e)"
        by (auto simp: run_def batchDeleteBlogs_def await_def call_getAuthToken_def
            toast_info_def call_getRef_def preamble_def)
      then show ?thesis by (simp add: ref_failed)
    next
      case base: (Inr base)
      obtain r3 tr3 w3 where c3:
        "process_slugs env cfg token slugs [] (preamble cfg token (Inr base), w2) = (r3, tr3, w3)"
        by (cases "process_slugs env cfg token slugs [] (preamble cfg token (Inr base), w2)")
      obtain fs where fs:
        "case r3 of
           Inr items \<Rightarrow> length fs = length slugs \<and>
             tr3 = resolved cfg token base slugs fs \<and> items = mutation_set slugs fs
         | Inl e \<Rightarrow> length fs < length slugs \<and>
             tr3 = preamble cfg token (Inr base)
                   @ loop_events cfg token (zip slugs (map Inr fs @ [Inl e]))"
        using process_slugs_shape [OF c3]
        by (cases r3) (auto simp: resolved_def mutation_set_def)
      have rest: "batchDeleteBlogs env cfg (Some slugs) ([], w) =
         (case r3 of Inl e \<Rightarrow> (Inl e, tr3, w3)
          | Inr treeItems \<Rightarrow>
            await (toast_info msg_creating_tree) (\<lambda>_.
            await (call_createTree env token (OWNER cfg) (REPO cfg) treeItems base)
              (\<lambda>treeSha.
            await (toast_info msg_creating_commit) (\<lambda>_.
            await (call_createCommit env token (OWNER cfg) (REPO cfg) (commit_message slugs)
                     treeSha [base]) (\<lambda>commitSha.
            await (toast_info msg_updating_branch) (\<lambda>_.
            await (call_updateRef env token (OWNER cfg) (REPO cfg) (''heads/'' @ BRANCH cfg)
                     commitSha) (\<lambda>_.
            toast_success msg_success)))))) (tr3, w3))"
        using assms(1) c1 tok c2 base c3
        by (cases r3)
          (simp_all add: batchDeleteBlogs_def await_def call_getAuthToken_def toast_info_def
            call_getRef_def preamble_def)
      show ?thesis
      proof (cases r3)
        case (Inl e)
        with rest assms(2) fs show ?thesis
          by (auto simp: run_def intro: listing_failed)
      next
        case items: (Inr items)
        with fs have len: "length fs = length slugs" and tr3: "tr3 = resolved cfg token base slugs fs"
          and it: "items = mutation_set slugs fs" by auto
        obtain r4 w4 where c4:
          "createTree env token (OWNER cfg) (REPO cfg) items base w3 = (r4, w4)"
          by (cases "createTree env token (OWNER cfg) (REPO cfg) items base w3")
        show ?thesis
        proof (cases r4)
          case (Inl e)
          with rest assms(2) items c4 tr3 it have "res = Inl e"
            "tr = resolved cfg token base slugs fs @ tree_step cfg token base slugs fs (Inl e)"
            by (auto simp: run_def await_def toast_info_def call_createTree_def tree_step_def)
          then show ?thesis using len by (simp add: tree_failed)
        next
          case tree: (Inr tree)
          obtain r5 w5 where c5:
            "createCommit env token (OWNER cfg) (REPO cfg) (commit_message slugs) tree [base] w4
              = (r5, w5)"
            by (cases "createCommit env token (OWNER cfg) (REPO cfg) (commit_message slugs) tree [base] w4")
          show ?thesis
          proof (cases r5)
            case (Inl e)
            with rest assms(2) items c4 tree c5 tr3 it have "res = Inl e"
              "tr = resolved cfg token base slugs fs @ tree_step cfg token base slugs fs (Inr tree)
                 @ commit_step cfg token base slugs tree (Inl e)"
              by (auto simp: run_def await_def toast_info_def call_createTree_def tree_step_def
                  call_createCommit_def commit_step_def)
            then show ?thesis using len by (simp add: commit_failed)
          next
            case commit: (Inr commit)
            obtain r6 w6 where c6:
              "updateRef env token (OWNER cfg) (REPO cfg) (''heads/'' @ BRANCH cfg) commit w5
                = (r6, w6)"
              by (cases "updateRef env token (OWNER cfg) (REPO cfg) (''heads/'' @ BRANCH cfg) commit w5")
            show ?thesis
            proof (cases r6)
              case (Inl e)
              with rest assms(2) items c4 tree c5 commit c6 tr3 it have "res = Inl e"
                "tr = resolved cfg token base slugs fs @ tree_step cfg token base slugs fs (Inr tree)
                   @ commit_step cfg token base slugs tree (Inr commit)
                   @ update_step cfg token commit (Inl e)"
                by (auto simp: run_def await_def toast_info_def call_createTree_def tree_step_def
                    call_createCommit_def commit_step_def call_updateRef_def update_step_def)
              then show ?thesis using len by (simp add: update_failed)
            next
              case (Inr u)
              with rest assms(2) items c4 tree c5 commit c6 tr3 it have "res = Inr ()"
                "tr = resolved cfg token base slugs fs @ tree_step cfg token base slugs fs (Inr tree)
                   @ commit_step cfg token base slugs tree (Inr commit)
                   @ update_step cfg token commit (Inr ()) @ [ToastSuccess msg_success]"
                by (auto simp: run_def await_def toast_info_def call_createTree_def tree_step_def
                    call_createCommit_def commit_step_def call_updateRef_def update_step_def
                    toast_success_def)
              then show ?thesis using len by (simp add: succeeded)
            qed
          qed
        qed
      qed
    qed
  qed
qed

section \<open>What the observers see in the pieces of a run\<close>

lemmas shape_defs = preamble_def resolved_def tree_step_def commit_step_def update_step_def

lemma notifications_append [simp]:
  "notifications (xs @ ys) = notifications xs @ notifications ys"
  by (simp add: notifications_def)

lemma notifications_Nil [simp]: "notifications [] = []"
  by (simp add: notifications_def)

lemma notifications_Cons [simp]:
  "notifications (ev # tr) = (if is_toast ev then ev # notifications tr else notifications tr)"
  by (simp add: notifications_def)

lemma notifications_loop:
  "notifications (loop_events cfg token (zip slugs outs)) =
     map (\<lambda>slug. ToastInfo (msg_processing slug)) (take (length outs) slugs)"
proof (induction slugs arbitrary: outs)
  case Nil
  then show ?case by simp
next
  case (Cons slug rest)
  then show ?case by (cases outs) simp_all
qed

lemma success_toast_loop:
  "\<not> list_ex is_success_toast (loop_events cfg token steps)"
  by (induction steps) (auto simp: loop_events_def)

lemma head_reads_loop: "concat (map head_read (loop_events cfg token steps)) = []"
  by (induction steps) (auto simp: loop_events_def)

lemma tree_request_loop: "concat (map tree_request (loop_events cfg token steps)) = []"
  by (induction steps) (auto simp: loop_events_def)

lemma commit_request_loop: "concat (map commit_request (loop_events cfg token steps)) = []"
  by (induction steps) (auto simp: loop_events_def)

lemma getRef_loop: "filter is_getRef (loop_events cfg token steps) = []"
  by (induction steps) (auto simp: loop_events_def)

lemma updateRef_loop: "\<not> list_ex is_updateRef (loop_events cfg token steps)"
  by (induction steps) (auto simp: loop_events_def)

lemma rejected_loop: "\<not> list_ex construction_rejected (loop_events cfg token steps)"
  by (induction steps) (auto simp: loop_events_def)

lemma createTree_loop: "\<not> list_ex is_createTree (loop_events cfg token steps)"
  by (induction steps) (auto simp: loop_events_def)

lemmas observer_defs = head_reads_def submitted_def tree_bases_def commit_requests_def
  commit_messages_def commit_parents_def created_commits_def

lemmas loop_silent = head_reads_loop tree_request_loop commit_request_loop getRef_loop
  updateRef_loop rejected_loop createTree_loop

section \<open>Runs on the example host\<close>

lemmas run_defs = run_def batchDeleteBlogs_def await_def toast_info_def toast_success_def
  call_getAuthToken_def call_getRef_def call_listRepoFilesRecursive_def call_createTree_def
  call_createCommit_def call_updateRef_def commit_message_def imagesPath_def md_path_def
  mdx_path_def

lemmas example_defs = example_env_def example_cfg_def example_remote_def

lemma string_of_nat_2: "string_of_nat (Suc (Suc 0)) = ''2''"
proof -
  have "string_of_nat 2 = ''2''" by code_simp
  then show ?thesis by (simp add: numeral_2_eq_2)
qed

lemma example_run:
  "run example_env example_cfg (Some [''post-a'']) example_remote =
     (Inr (), example_trace, example_remote\<lparr>remote_head := ''commit1''\<rparr>)"
  by (simp add: run_defs example_defs example_trace_def)

lemma nested_run:
  "run example_env example_cfg (Some [''post-a'', ''post-a/draft'']) example_remote =
     (Inr (), nested_trace, example_remote\<lparr>remote_head := ''commit1''\<rparr>)"
  by (simp add: run_defs example_defs nested_trace_def string_of_nat_2)


lemma tree_rejected_run:
  "run tree_rejecting_env example_cfg (Some [''post-b'']) example_remote =
     (Inl rejected, tree_rejected_trace, example_remote)"
  by (simp add: run_defs example_defs tree_rejecting_env_def tree_rejected_trace_def)

lemma commit_rejected_run:
  "run commit_rejecting_env example_cfg (Some [''post-b'']) example_remote =
     (Inl rejected, commit_rejected_trace, example_remote)"
  by (simp add: run_defs example_defs commit_rejecting_env_def commit_rejected_trace_def)

lemma no_credential_run:
  "run no_credential_env example_cfg (Some [''post-a'']) example_remote =
     (Inl rejected, [EvGetAuthToken (Inl rejected)], example_remote)"
  by (simp add: run_defs example_defs no_credential_env_def)

section \<open>The mutation set\<close>

lemma listed_Nil [simp]: "listed [] = []"
  by (simp add: listed_def)

lemma listed_Cons [simp]: "listed (ev # tr) = listing ev @ listed tr"
  by (simp add: listed_def)

lemma listed_append [simp]: "listed (xs @ ys) = listed xs @ listed ys"
  by (simp add: listed_def)




lemma path_delete_item: "map path (map delete_item ps) = ps"
  by (induction ps) (simp_all add: delete_item_def)

lemma md_path_inj [simp]: "md_path s = md_path t \<longleftrightarrow> s = t"
  by (simp add: md_path_def)

lemma mdx_path_inj [simp]: "mdx_path s = mdx_path t \<longleftrightarrow> s = t"
  by (simp add: mdx_path_def)







section \<open>The reference advance\<close>

text \<open>
  C2. On the advancer of the specification: when the expected old commit is not the commit
  the branch points to, \<open>advance\<close> answers \<open>Conflict\<close>, the branch points where it did,
  the stored commits are the same, and a new commit that the branch did not reach before
  the call is not reached after it.
\<close>

theorem advance_conflict:
  assumes "branches st branchName \<noteq> Some expectedOldCommit"
    and "\<not> reachable_from_branch st branchName newCommit"
  shows "fst (advance branchName expectedOldCommit newCommit st) = Conflict \<and>
         branches (snd (advance branchName expectedOldCommit newCommit st)) branchName =
           branches st branchName \<and>
         commits (snd (advance branchName expectedOldCommit newCommit st)) = commits st \<and>
         \<not> reachable_from_branch (snd (advance branchName expectedOldCommit newCommit st))
             branchName newCommit"
  using assms by (simp add: advance_def)

lemma advance_success:
  "branches st branchName = Some expectedOldCommit \<Longrightarrow>
   advance branchName expectedOldCommit newCommit st =
     (Success, st\<lparr>branches := (branches st)(branchName \<mapsto> newCommit)\<rparr>)"
  by (simp add: advance_def)

lemma example_commit0:
  "commits example_store ''commit0'' =
     Some \<lparr>commit_tree = ''tree0'', commit_parent_list = [], commit_text = ''first''\<rparr>"
  by (simp add: example_store_def)

lemma example_commit1:
  "commits example_store ''commit1'' =
     Some \<lparr>commit_tree = ''tree1'', commit_parent_list = [''commit0''],
            commit_text = ''second''\<rparr>"
  by (simp add: example_store_def)

lemma example_main: "branches example_store ''main'' = Some ''commit1''"
  by (simp add: example_store_def)

lemma reachable_step:
  "reachable st c d \<Longrightarrow>
   c = d \<or> (\<exists>obj p. commits st c = Some obj \<and> p \<in> set (commit_parent_list obj) \<and> reachable st p d)"
  by (erule reachable.cases) auto

lemma example_unreachable: "\<not> reachable_from_branch example_store ''main'' ''commit2''"
proof -
  have c0: "\<not> reachable example_store ''commit0'' ''commit2''"
    using reachable_step [of example_store "''commit0''" "''commit2''"]
    by (auto simp: example_commit0)
  have "\<not> reachable example_store ''commit1'' ''commit2''"
    using reachable_step [of example_store "''commit1''" "''commit2''"] c0
    by (auto simp: example_commit1)
  then show ?thesis by (simp add: reachable_from_branch_def example_main)
qed

theorem advance_conflict_witness:
  "branches example_store ''main'' \<noteq> Some ''commit0'' \<and>
   \<not> reachable_from_branch example_store ''main'' ''commit2'' \<and>
   advance ''main'' ''commit0'' ''commit2'' example_store = (Conflict, example_store) \<and>
   branches example_store ''main'' = Some ''commit1''"
proof -
  have h: "branches example_store ''main'' \<noteq> Some ''commit0''"
    by (simp add: example_main)
  from advance_conflict [OF h example_unreachable]
  have "fst (advance ''main'' ''commit0'' ''commit2'' example_store) = Conflict" by simp
  moreover have "snd (advance ''main'' ''commit0'' ''commit2'' example_store) = example_store"
    using h by (simp add: advance_def)
  ultimately have "advance ''main'' ''commit0'' ''commit2'' example_store = (Conflict, example_store)"
    by (metis prod.collapse)
  with h example_unreachable show ?thesis by (simp add: example_main)
qed

section \<open>Failure of tree or commit construction\<close>

lemma preserves_await:
  assumes "preserves I m" and "\<And>a. preserves I (k a)"
  shows "preserves I (await m k)"
  unfolding preserves_def
proof (intro allI impI)
  fix s r s'
  assume inv: "I s" and eq: "await m k s = (r, s')"
  obtain r1 s1 where m: "m s = (r1, s1)" by (cases "m s")
  with assms(1) inv have inv1: "I s1" unfolding preserves_def by blast
  show "I s'"
  proof (cases r1)
    case (Inl e)
    with eq m have "s' = s1" by (simp add: await_def)
    with inv1 show ?thesis by simp
  next
    case (Inr a)
    with eq m have "k a s1 = (r, s')" by (simp add: await_def)
    with assms(2) [of a] inv1 show ?thesis unfolding preserves_def by blast
  qed
qed

lemma preserves_throw: "preserves I (throw e)"
  by (simp add: preserves_def throw_def)

lemma preserves_return: "preserves I (\<lambda>s. (Inr x, s))"
  by (simp add: preserves_def)

lemma untouched_toast_info: "preserves (untouched obs h) (toast_info msg)"
  by (auto simp: preserves_def untouched_def toast_info_def)

lemma untouched_toast_success: "preserves (untouched obs h) (toast_success msg)"
  by (auto simp: preserves_def untouched_def toast_success_def)

lemma untouched_getAuthToken:
  "leaves_alone obs env \<Longrightarrow> preserves (untouched obs h) (call_getAuthToken env)"
  unfolding preserves_def untouched_def call_getAuthToken_def leaves_alone_def
  by (auto split: prod.splits) (metis snd_conv)

lemma untouched_getRef:
  "leaves_alone obs env \<Longrightarrow> preserves (untouched obs h) (call_getRef env t ow rp rf)"
  unfolding preserves_def untouched_def call_getRef_def leaves_alone_def
  by (auto split: prod.splits) (metis snd_conv)

lemma untouched_listRepoFilesRecursive:
  "leaves_alone obs env \<Longrightarrow>
   preserves (untouched obs h) (call_listRepoFilesRecursive env t ow rp d b)"
  unfolding preserves_def untouched_def call_listRepoFilesRecursive_def leaves_alone_def
  by (auto split: prod.splits) (metis snd_conv)

lemma untouched_createTree:
  "leaves_alone obs env \<Longrightarrow> preserves (untouched obs h) (call_createTree env t ow rp its b)"
  unfolding preserves_def untouched_def call_createTree_def leaves_alone_def
  by (auto split: prod.splits) (metis snd_conv)

lemma untouched_createCommit:
  "leaves_alone obs env \<Longrightarrow>
   preserves (untouched obs h) (call_createCommit env t ow rp m tr ps)"
  unfolding preserves_def untouched_def call_createCommit_def leaves_alone_def
  by (auto split: prod.splits) (metis snd_conv)

lemma untouched_updateRef: "preserves (untouched obs h) (call_updateRef env t ow rp rf new)"
  by (auto simp: preserves_def untouched_def call_updateRef_def split: prod.splits)

lemma untouched_process_slugs:
  "leaves_alone obs env \<Longrightarrow>
   preserves (untouched obs h) (process_slugs env cfg token slugs treeItems)"
proof (induction slugs arbitrary: treeItems)
  case Nil
  then show ?case by (simp add: preserves_return)
next
  case (Cons slug rest)
  then show ?case
    by (simp add: preserves_await untouched_toast_info untouched_listRepoFilesRecursive)
qed

lemma untouched_batchDeleteBlogs:
  assumes "leaves_alone obs env"
  shows "preserves (untouched obs h) (batchDeleteBlogs env cfg slugs_arg)"
  unfolding batchDeleteBlogs_def
  by (auto split: option.splits
      intro!: preserves_await preserves_throw untouched_toast_info untouched_toast_success
        untouched_getAuthToken untouched_getRef untouched_process_slugs untouched_createTree
        untouched_createCommit untouched_updateRef assms)

lemma branch_moves_only_by_updateRef:
  assumes "leaves_alone obs env" and "run env cfg slugs_arg w = (res, tr, w')"
  shows "obs w' = obs w \<or> list_ex is_updateRef tr"
proof -
  have "untouched obs (obs w) ([], w)" by (simp add: untouched_def)
  with untouched_batchDeleteBlogs [OF assms(1), of "obs w" cfg slugs_arg] assms(2)
  have "untouched obs (obs w) (tr, w')"
    unfolding preserves_def run_def by blast
  then show ?thesis by (simp add: untouched_def)
qed

text \<open>
  C3. Let \<open>obs\<close> be any observation of the world, such as the commit the branch points
  to, that the credential request, the reads and the two object constructors leave as it
  is. If a run has a rejected \<open>createTree\<close> or \<open>createCommit\<close> call, then the run
  contains no \<open>updateRef\<close> call, the observation has the value it had before the run,
  the function rejects, and the rejected call is the last event of the run.
\<close>

theorem construction_failure_leaves_branch:
  assumes "leaves_alone obs env" and "run env cfg slugs_arg w = (res, tr, w')"
    and "list_ex construction_rejected tr"
  shows "\<not> list_ex is_updateRef tr \<and> obs w' = obs w \<and> (\<exists>e. res = Inl e) \<and>
         construction_rejected (last tr)"
proof -
  have "slugs_arg \<noteq> None \<and> slugs_arg \<noteq> Some []"
    using assms(2,3) by (cases slugs_arg) (auto simp: run_def batchDeleteBlogs_def throw_def)
  then obtain slugs where "slugs_arg = Some slugs" "slugs \<noteq> []" by auto
  with assms(2) have "transaction cfg slugs tr res" by (simp add: run_transaction)
  then have "\<not> list_ex is_updateRef tr \<and> (\<exists>e. res = Inl e) \<and> construction_rejected (last tr)"
    using assms(3) by cases (simp_all add: shape_defs loop_silent)
  with branch_moves_only_by_updateRef [OF assms(1,2)] show ?thesis by blast
qed

theorem construction_failure_leaves_branch_witness:
  "leaves_alone remote_head tree_rejecting_env \<and>
   run tree_rejecting_env example_cfg (Some [''post-b'']) example_remote =
     (Inl rejected, tree_rejected_trace, example_remote) \<and>
   list_ex construction_rejected tree_rejected_trace \<and>
   \<not> list_ex is_updateRef tree_rejected_trace \<and>
   leaves_alone remote_head commit_rejecting_env \<and>
   run commit_rejecting_env example_cfg (Some [''post-b'']) example_remote =
     (Inl rejected, commit_rejected_trace, example_remote) \<and>
   list_ex construction_rejected commit_rejected_trace \<and>
   \<not> list_ex is_updateRef commit_rejected_trace \<and>
   remote_head example_remote = ''commit0''"
proof -
  have t1: "leaves_alone remote_head tree_rejecting_env"
    by (simp add: leaves_alone_def tree_rejecting_env_def example_env_def)
  have t2: "list_ex construction_rejected tree_rejected_trace"
    by (simp add: tree_rejected_trace_def)
  have c1: "leaves_alone remote_head commit_rejecting_env"
    by (simp add: leaves_alone_def commit_rejecting_env_def example_env_def)
  have c2: "list_ex construction_rejected commit_rejected_trace"
    by (simp add: commit_rejected_trace_def)
  show ?thesis
    using construction_failure_leaves_branch [OF t1 tree_rejected_run t2]
      construction_failure_leaves_branch [OF c1 commit_rejected_run c2] t1 t2 c1 c2
    by (simp add: tree_rejected_run commit_rejected_run) (simp add: example_remote_def)
qed

section \<open>Rejection of an empty request\<close>

text \<open>
  C4. When the slug list is absent or empty, the function rejects with the error of line 7
  and nothing else happens: the event log stays empty (no credential request, no branch
  read, no listing, no tree, commit or reference call, no notification) and the world is
  the one it started in.
\<close>

theorem batchDeleteBlogs_rejects_empty:
  "run env cfg None w = (Inl (Error msg_need_slugs), [], w) \<and>
   run env cfg (Some []) w = (Inl (Error msg_need_slugs), [], w)"
  by (simp add: run_def batchDeleteBlogs_def throw_def)

section \<open>Where the branch head is read\<close>

lemma storage_calls_loop:
  "filter is_storage_call (loop_events cfg token steps) = listing_events cfg token steps"
  by (induction steps) (auto simp: loop_events_def listing_events_def)

lemma listing_events_no_tree:
  "takeWhile (\<lambda>ev. \<not> is_createTree ev) (listing_events cfg token steps @ ev # rest) =
     listing_events cfg token steps @ takeWhile (\<lambda>ev. \<not> is_createTree ev) (ev # rest)"
  by (rule takeWhile_append2) (auto simp: listing_events_def)

lemma listing_events_all: "list_all is_listing (listing_events cfg token steps)"
  by (induction steps) (auto simp: listing_events_def)

lemma listed_listing_events:
  "length fs = length slugs \<Longrightarrow>
   concat (map listing (listing_events cfg token (zip slugs (map Inr fs)))) =
     zip (map imagesPath slugs) fs"
  by (induction fs slugs rule: list_induct2) (auto simp: listing_events_def)

lemma between_resolved:
  assumes "length fs = length slugs"
  shows "between_read_and_tree
           (resolved cfg token base slugs fs @ tree_step cfg token base slugs fs out @ rest) =
         listing_events cfg token (zip slugs (map Inr fs))"
  by (simp add: between_read_and_tree_def shape_defs storage_calls_loop listing_events_no_tree)

text \<open>
  C5, as amended. The branch head is not read again before the tree is built. In a run
  on a non-empty slug list that reaches \<open>createTree\<close>, the head is read exactly once,
  the read is the first call to the repository host, and between it and the
  \<open>createTree\<close> call lie exactly the listing calls, one for the media directory of each
  slug in slug order, and no other call; so at least one call lies between them.
\<close>

theorem base_read_before_resolution:
  assumes "slugs \<noteq> []" and "run env cfg (Some slugs) w = (res, tr, w')"
    and "list_ex is_createTree tr"
  shows "length (filter is_getRef tr) = 1 \<and>
         is_getRef (hd (filter is_storage_call tr)) \<and>
         length (between_read_and_tree tr) = length slugs \<and>
         list_all is_listing (between_read_and_tree tr) \<and>
         map fst (listed (between_read_and_tree tr)) = map imagesPath slugs \<and>
         between_read_and_tree tr \<noteq> []"
proof -
  have "\<exists>token base fs out rest. length fs = length slugs \<and>
          tr = resolved cfg token base slugs fs @ tree_step cfg token base slugs fs out @ rest"
    using run_transaction [OF assms(1,2)] assms(3)
  proof cases
    case (tree_failed fs token base e)
    then show ?thesis by (metis append_Nil2)
  qed (auto simp: shape_defs loop_silent)
  then obtain token base fs out rest where len: "length fs = length slugs"
    and tr: "tr = resolved cfg token base slugs fs @ tree_step cfg token base slugs fs out @ rest"
    by blast
  have one: "length (filter is_getRef tr) = 1 \<and> is_getRef (hd (filter is_storage_call tr))"
    using run_transaction [OF assms(1,2)] assms(3)
    by cases (simp_all add: shape_defs loop_silent)
  have btw: "between_read_and_tree tr = listing_events cfg token (zip slugs (map Inr fs))"
    unfolding tr by (rule between_resolved [OF len])
  show ?thesis
    using one len assms(1)
    by (simp add: btw listing_events_all listed_def listed_listing_events)
      (auto simp: listing_events_def)
qed

theorem base_read_before_resolution_witness:
  "[''post-a''] \<noteq> [] \<and>
   run example_env example_cfg (Some [''post-a'']) example_remote =
     (Inr (), example_trace, example_remote\<lparr>remote_head := ''commit1''\<rparr>) \<and>
   list_ex is_createTree example_trace \<and>
   length (filter is_getRef example_trace) = 1 \<and>
   length (between_read_and_tree example_trace) = length [''post-a''] \<and>
   map fst (listed (between_read_and_tree example_trace)) = [''public/images/post-a'']"
proof -
  have h: "list_ex is_createTree example_trace"
    by (simp add: example_trace_def)
  show ?thesis
    using base_read_before_resolution [OF _ example_run h] h
    by (simp add: example_run imagesPath_def)
qed

text \<open>
  The claim as stated fails on the example host: the listing of the media directory of
  \<open>post-a\<close> is issued after the branch head is read and before the tree is created.
\<close>

theorem listing_between_read_and_tree:
  "run example_env example_cfg (Some [''post-a'']) example_remote =
     (Inr (), example_trace, example_remote\<lparr>remote_head := ''commit1''\<rparr>) \<and>
   list_ex is_createTree example_trace \<and>
   between_read_and_tree example_trace =
     [EvListRepoFilesRecursive ''token'' ''owner'' ''blog'' ''public/images/post-a'' ''main''
        (Inr [''public/images/post-a/img.png'', ''public/images/post-a/draft/fig.png''])] \<and>
   between_read_and_tree example_trace \<noteq> []"
  by (simp add: example_run) (simp add: example_trace_def between_read_and_tree_def)

section \<open>What the answers of the host leave in the log\<close>

lemma quiet_toast_info: "\<not> P (ToastInfo msg) \<Longrightarrow> preserves (quiet P) (toast_info msg)"
  by (auto simp: preserves_def quiet_def toast_info_def)

lemma quiet_toast_success: "\<not> P (ToastSuccess msg) \<Longrightarrow> preserves (quiet P) (toast_success msg)"
  by (auto simp: preserves_def quiet_def toast_success_def)

lemma quiet_getAuthToken:
  "never P env \<Longrightarrow> preserves (quiet P) (call_getAuthToken env)"
  unfolding preserves_def quiet_def call_getAuthToken_def never_def
  by (auto split: prod.splits) (metis fst_conv)

lemma quiet_getRef:
  "never P env \<Longrightarrow> preserves (quiet P) (call_getRef env t ow rp rf)"
  unfolding preserves_def quiet_def call_getRef_def never_def
  by (auto split: prod.splits) (metis fst_conv)

lemma quiet_listRepoFilesRecursive:
  "never P env \<Longrightarrow> preserves (quiet P) (call_listRepoFilesRecursive env t ow rp d b)"
  unfolding preserves_def quiet_def call_listRepoFilesRecursive_def never_def
  by (auto split: prod.splits) (metis fst_conv)

lemma quiet_createTree:
  "never P env \<Longrightarrow> preserves (quiet P) (call_createTree env t ow rp its b)"
  unfolding preserves_def quiet_def call_createTree_def never_def
  by (auto split: prod.splits) (metis fst_conv)

lemma quiet_createCommit:
  "never P env \<Longrightarrow> preserves (quiet P) (call_createCommit env t ow rp m tr ps)"
  unfolding preserves_def quiet_def call_createCommit_def never_def
  by (auto split: prod.splits) (metis fst_conv)

lemma quiet_updateRef:
  "never P env \<Longrightarrow> preserves (quiet P) (call_updateRef env t ow rp rf new)"
  unfolding preserves_def quiet_def call_updateRef_def never_def
  by (auto split: prod.splits) (metis fst_conv)

lemma never_toasts: "never P env \<Longrightarrow> \<not> P (ToastInfo m) \<and> \<not> P (ToastSuccess m)"
  by (simp add: never_def)

lemma quiet_process_slugs:
  "never P env \<Longrightarrow> preserves (quiet P) (process_slugs env cfg token slugs treeItems)"
proof (induction slugs arbitrary: treeItems)
  case Nil
  then show ?case by (simp add: preserves_return)
next
  case (Cons slug rest)
  then show ?case
    by (simp add: preserves_await quiet_toast_info quiet_listRepoFilesRecursive never_toasts)
qed

lemma quiet_batchDeleteBlogs:
  assumes "never P env"
  shows "preserves (quiet P) (batchDeleteBlogs env cfg slugs_arg)"
  unfolding batchDeleteBlogs_def
  by (auto split: option.splits
      intro!: preserves_await preserves_throw quiet_toast_info quiet_toast_success
        quiet_getAuthToken quiet_getRef quiet_process_slugs quiet_createTree
        quiet_createCommit quiet_updateRef assms
      simp: never_toasts [OF assms])

lemma never_in_run:
  assumes "never P env" and "run env cfg slugs_arg w = (res, tr, w')"
  shows "\<not> list_ex P tr"
proof -
  have "quiet P ([], w)" by (simp add: quiet_def)
  with quiet_batchDeleteBlogs [OF assms(1), of cfg slugs_arg] assms(2)
  have "quiet P (tr, w')"
    unfolding preserves_def run_def by blast
  then show ?thesis by (simp add: quiet_def)
qed

lemma rejected_getAuthToken: "rejected_call (EvGetAuthToken r) = isl r"
  by (cases r) simp_all

lemma rejected_getRef: "rejected_call (EvGetRef t ow rp rf r) = isl r"
  by (cases r) simp_all

lemma rejected_listRepoFilesRecursive: "rejected_call (EvListRepoFilesRecursive t ow rp d b r) = isl r"
  by (cases r) simp_all

lemma rejected_createTree: "rejected_call (EvCreateTree t ow rp its b r) = isl r"
  by (cases r) simp_all

lemma rejected_createCommit: "rejected_call (EvCreateCommit t ow rp m tr ps r) = isl r"
  by (cases r) simp_all

lemma rejected_updateRef: "rejected_call (EvUpdateRef t ow rp rf new r) = isl r"
  by (cases r) simp_all

lemmas rejected_isl = rejected_getAuthToken rejected_getRef rejected_listRepoFilesRecursive
  rejected_createTree rejected_createCommit rejected_updateRef

lemma constructs_never: "constructs env \<Longrightarrow> never rejected_before_update env"
  by (simp add: constructs_def never_def rejected_before_update_def rejected_isl)

lemma always_resolves_never: "always_resolves env \<Longrightarrow> never rejected_call env"
  by (simp add: always_resolves_def constructs_def never_def rejected_isl)

lemma loop_failed_split:
  "length fs < length slugs \<Longrightarrow>
   loop_events cfg token (zip slugs (map Inr fs @ [Inl e])) =
     loop_events cfg token (zip slugs (map Inr fs))
     @ [ToastInfo (msg_processing (slugs ! length fs)),
        EvListRepoFilesRecursive token (OWNER cfg) (REPO cfg) (imagesPath (slugs ! length fs))
          (BRANCH cfg) (Inl e)]"
proof (induction slugs arbitrary: fs)
  case Nil
  then show ?case by simp
next
  case (Cons slug rest)
  then show ?case by (cases fs) simp_all
qed

lemma announces_listing [simp]:
  "announces (msg_processing slug)
     (EvListRepoFilesRecursive t ow rp (imagesPath slug) b out)"
  by (simp add: imagesPath_def)

lemma announced_loop:
  "announced (loop_events cfg token steps @ rest) = announced rest"
  by (induction steps) (auto simp del: announces.simps(2))

lemma before_update_simps [simp]:
  "rejected_before_update (ToastInfo m) = False"
  "rejected_before_update (ToastSuccess m) = False"
  "rejected_before_update (EvGetAuthToken r) = isl r"
  "rejected_before_update (EvGetRef t ow rp rf r) = isl r"
  "rejected_before_update (EvListRepoFilesRecursive t ow rp d b l) = isl l"
  "rejected_before_update (EvCreateTree t ow rp its bs r) = isl r"
  "rejected_before_update (EvCreateCommit t ow rp mm tt ps r) = isl r"
  "rejected_before_update (EvUpdateRef t ow rp rf new u) = False"
  by (simp_all add: rejected_before_update_def rejected_isl)

lemma before_update_loop_resolved:
  "\<not> list_ex rejected_before_update (loop_events cfg token (zip slugs (map Inr fs)))"
proof (induction slugs arbitrary: fs)
  case Nil
  then show ?case by simp
next
  case (Cons slug rest)
  then show ?case by (cases fs) simp_all
qed

lemma announced_loop_only: "announced (loop_events cfg token steps)"
  using announced_loop [of cfg token steps "[]"] by simp

section \<open>One commit on the base\<close>

text \<open>
  C6, as amended. A run asks for at most one commit, and every commit it creates has
  exactly one parent, the commit that the branch-head read of the run returned. On a host
  whose credential request, reads and object constructors resolve, every run on a
  non-empty slug list creates exactly one such commit; so does every run in which no call
  before the reference update was rejected. A run that is rejected at the input check or
  at a call before the reference update creates no commit.
\<close>

theorem one_commit_on_base:
  assumes "run env cfg slugs_arg w = (res, tr, w')"
  shows "length (commit_requests tr) \<le> 1 \<and>
         (\<forall>(parents, commit) \<in> set (created_commits tr).
            parents = head_reads tr \<and> length parents = 1) \<and>
         (constructs env \<longrightarrow>
            (\<forall>slugs. slugs_arg = Some slugs \<and> slugs \<noteq> [] \<longrightarrow>
               (\<exists>base commit. head_reads tr = [base] \<and>
                  created_commits tr = [([base], commit)]))) \<and>
         (\<forall>slugs. slugs_arg = Some slugs \<and> slugs \<noteq> [] \<and>
            \<not> list_ex rejected_before_update tr \<longrightarrow>
            (\<exists>base commit. head_reads tr = [base] \<and>
               created_commits tr = [([base], commit)])) \<and>
         (slugs_arg = None \<or> slugs_arg = Some [] \<or> list_ex rejected_before_update tr \<longrightarrow>
            created_commits tr = [])"
proof (cases "slugs_arg = None \<or> slugs_arg = Some []")
  case True
  with assms have "tr = []"
    by (auto simp: run_def batchDeleteBlogs_def throw_def)
  with True show ?thesis by (auto simp: observer_defs)
next
  case False
  then obtain slugs where s: "slugs_arg = Some slugs" "slugs \<noteq> []" by auto
  with assms have t: "transaction cfg slugs tr res" by (simp add: run_transaction)
  have quiet: "\<not> list_ex rejected_before_update tr" if "constructs env"
    using never_in_run [OF constructs_never [OF that] assms] .
  from t have a: "length (commit_requests tr) \<le> 1 \<and>
         (\<forall>(parents, commit) \<in> set (created_commits tr).
            parents = head_reads tr \<and> length parents = 1)"
    by cases (simp_all add: shape_defs observer_defs loop_silent)
  from t have b: "\<not> list_ex rejected_before_update tr \<longrightarrow>
      (\<exists>base commit. head_reads tr = [base] \<and> created_commits tr = [([base], commit)])"
    by cases
      (simp_all add: shape_defs observer_defs loop_silent loop_failed_split
        before_update_loop_resolved)
  from t have c: "list_ex rejected_before_update tr \<longrightarrow> created_commits tr = []"
    by cases
      (simp_all add: shape_defs observer_defs loop_silent loop_failed_split
        before_update_loop_resolved)
  from a b c quiet s False show ?thesis by auto
qed

theorem one_commit_on_base_witness:
  "run example_env example_cfg (Some [''post-a'']) example_remote =
     (Inr (), example_trace, example_remote\<lparr>remote_head := ''commit1''\<rparr>) \<and>
   constructs example_env \<and>
   head_reads example_trace = [''commit0''] \<and>
   created_commits example_trace = [([''commit0''], ''commit1'')] \<and>
   length (commit_requests example_trace) = 1 \<and>
   run commit_rejecting_env example_cfg (Some [''post-b'']) example_remote =
     (Inl rejected, commit_rejected_trace, example_remote) \<and>
   list_ex rejected_before_update commit_rejected_trace \<and>
   created_commits commit_rejected_trace = []"
proof -
  have e: "constructs example_env"
    by (simp add: constructs_def example_env_def)
  have h: "head_reads example_trace = [''commit0'']"
    by (simp add: example_trace_def observer_defs)
  have c: "created_commits example_trace = [([''commit0''], ''commit1'')]"
    by (simp add: example_trace_def observer_defs)
  have r: "length (commit_requests example_trace) = 1"
    by (simp add: example_trace_def observer_defs)
  have f: "list_ex rejected_before_update commit_rejected_trace"
    by (simp add: commit_rejected_trace_def rejected_def)
  have n: "created_commits commit_rejected_trace = []"
    by (simp add: commit_rejected_trace_def observer_defs rejected_def)
  show ?thesis
    using one_commit_on_base [OF example_run] one_commit_on_base [OF commit_rejected_run]
      e h c r f n
    by (simp add: example_run commit_rejected_run)
qed

text \<open>
  The claim as stated fails: on the host that rejects the tree the transaction ends
  without asking for a commit and without creating one.
\<close>

theorem transaction_without_commit:
  "run tree_rejecting_env example_cfg (Some [''post-b'']) example_remote =
     (Inl rejected, tree_rejected_trace, example_remote) \<and>
   commit_requests tree_rejected_trace = [] \<and>
   created_commits tree_rejected_trace = []"
  by (simp add: tree_rejected_run) (simp add: tree_rejected_trace_def observer_defs)

section \<open>The commit message\<close>

lemma nat_of_string_snoc:
  "nat_of_string (cs @ [c]) = 10 * nat_of_string cs + digit_val c"
  by (simp add: nat_of_string_def)

lemma digit_val_digit_char: "d < 10 \<Longrightarrow> digit_val (digit_char d) = d"
  by (simp add: digit_val_def digit_char_def)

lemma nat_of_string_of_nat: "nat_of_string (string_of_nat n) = n"
proof (induction n rule: string_of_nat.induct)
  case (1 n)
  show ?case
  proof (cases "n < 10")
    case True
    then show ?thesis
      by (subst string_of_nat.simps) (simp add: nat_of_string_def digit_val_digit_char)
  next
    case False
    with 1 show ?thesis
      by (subst string_of_nat.simps) (simp add: nat_of_string_snoc digit_val_digit_char)
  qed
qed

text \<open>
  C7. Every message a run passes to \<open>createCommit\<close> is the one of line 48. For a list of
  exactly one slug it is the singular prefix followed by that slug; for a longer list it is
  the aggregate prefix, the length of the list in decimal (reading the numeral back gives
  the length), and the closing word.
\<close>

theorem commit_message_policy:
  assumes "run env cfg (Some slugs) w = (res, tr, w')" and "message \<in> set (commit_messages tr)"
  shows "message = commit_message slugs \<and>
         (\<forall>slug. slugs = [slug] \<longrightarrow> message = msg_delete_one @ slug) \<and>
         (1 < length slugs \<longrightarrow>
            message = msg_delete_many @ string_of_nat (length slugs) @ msg_pian \<and>
            nat_of_string (string_of_nat (length slugs)) = length slugs)"
proof -
  have "slugs \<noteq> []"
    using assms by (auto simp: run_def batchDeleteBlogs_def throw_def observer_defs)
  then have "transaction cfg slugs tr res" using assms(1) by (rule run_transaction)
  then have "message = commit_message slugs"
    using assms(2) by cases (simp_all add: shape_defs observer_defs loop_silent)
  then show ?thesis
    by (auto simp: commit_message_def nat_of_string_of_nat)
qed

theorem commit_message_policy_witness:
  "run example_env example_cfg (Some [''post-a'']) example_remote =
     (Inr (), example_trace, example_remote\<lparr>remote_head := ''commit1''\<rparr>) \<and>
   msg_delete_one @ ''post-a'' \<in> set (commit_messages example_trace) \<and>
   run example_env example_cfg (Some [''post-a'', ''post-a/draft'']) example_remote =
     (Inr (), nested_trace, example_remote\<lparr>remote_head := ''commit1''\<rparr>) \<and>
   msg_delete_many @ ''2'' @ msg_pian \<in> set (commit_messages nested_trace) \<and>
   msg_delete_many @ ''2'' @ msg_pian =
     msg_delete_many @ string_of_nat (length [''post-a'', ''post-a/draft'']) @ msg_pian"
proof -
  have one: "msg_delete_one @ ''post-a'' \<in> set (commit_messages example_trace)"
    by (simp add: example_trace_def observer_defs)
  have many: "msg_delete_many @ ''2'' @ msg_pian \<in> set (commit_messages nested_trace)"
    by (simp add: nested_trace_def observer_defs)
  show ?thesis
    using commit_message_policy [OF example_run one] commit_message_policy [OF nested_run many]
      one many
    by (simp add: example_run nested_run)
qed

section \<open>Progress notifications\<close>

text \<open>
  C8. For a non-empty slug list the log of a run has one of the seven shapes of
  \<open>transaction\<close>: after the credential request, each stage the run reaches (resolving
  references, each slug in slug order, tree creation, commit creation, reference update)
  shows its notification and at once makes its call, and no call to the repository host is
  made without its notification right before it. A run that succeeds has shown the five
  stage notifications in order, one for each slug in the second stage, and ends with the
  success notification. A run that fails ends with the rejected call, has shown the
  notifications of the stages it reached, a prefix of the stage notifications, and no
  success notification. On a host whose credential request, reads and object constructors
  resolve, all stage notifications are shown; if the reference update resolves too, the
  run succeeds.
\<close>

theorem progress_notifications:
  assumes "slugs \<noteq> []" and "run env cfg (Some slugs) w = (res, tr, w')"
  shows "transaction cfg slugs tr res \<and> announced tr \<and>
         (res = Inr () \<longrightarrow>
            notifications tr = stage_notifications slugs @ [ToastSuccess msg_success] \<and>
            last tr = ToastSuccess msg_success) \<and>
         (res \<noteq> Inr () \<longrightarrow>
            prefix (notifications tr) (stage_notifications slugs) \<and>
            \<not> list_ex is_success_toast tr \<and> rejected_call (last tr)) \<and>
         (constructs env \<longrightarrow> prefix (stage_notifications slugs) (notifications tr)) \<and>
         (always_resolves env \<longrightarrow> res = Inr ())"
proof -
  have t: "transaction cfg slugs tr res" using assms by (rule run_transaction)
  have q1: "\<not> list_ex rejected_before_update tr" if "constructs env"
    using never_in_run [OF constructs_never [OF that] assms(2)] .
  have q2: "\<not> list_ex rejected_call tr" if "always_resolves env"
    using never_in_run [OF always_resolves_never [OF that] assms(2)] .
  from t have ann: "announced tr"
    by cases
      (simp_all add: shape_defs announced_loop announced_loop_only loop_failed_split
        del: announces.simps(2))
  from t have ok: "res = Inr () \<longrightarrow>
            notifications tr = stage_notifications slugs @ [ToastSuccess msg_success] \<and>
            last tr = ToastSuccess msg_success"
    by cases (simp_all add: notifications_loop shape_defs stage_notifications_def)
  from t have last: "res \<noteq> Inr () \<longrightarrow> rejected_call (last tr)"
    by cases (simp_all add: shape_defs loop_failed_split)
  from t have c: "\<not> list_ex rejected_before_update tr \<longrightarrow>
      prefix (stage_notifications slugs) (notifications tr)"
    by cases
      (simp_all add: shape_defs loop_failed_split before_update_loop_resolved
        notifications_loop stage_notifications_def)
  from t have d: "\<not> list_ex rejected_call tr \<longrightarrow> res = Inr ()"
    by cases (simp_all add: shape_defs loop_failed_split)
  from t have f: "res \<noteq> Inr () \<longrightarrow>
      prefix (notifications tr) (stage_notifications slugs) \<and> \<not> list_ex is_success_toast tr"
  proof cases
    case (listing_failed fs token base e)
    have "prefix (map (\<lambda>slug. ToastInfo (msg_processing slug)) (take (Suc (length fs)) slugs))
            (map (\<lambda>slug. ToastInfo (msg_processing slug)) slugs
             @ [ToastInfo msg_creating_tree, ToastInfo msg_creating_commit,
                ToastInfo msg_updating_branch])"
      by (metis map_mono_prefix prefix_prefix take_is_prefix)
    with listing_failed show ?thesis
      by (simp add: notifications_loop success_toast_loop preamble_def stage_notifications_def)
  qed (simp_all add: notifications_loop success_toast_loop shape_defs stage_notifications_def)
  from t ann ok last c d f q1 q2 show ?thesis by blast
qed

theorem progress_notifications_witness:
  "[''post-a''] \<noteq> [] \<and>
   run example_env example_cfg (Some [''post-a'']) example_remote =
     (Inr (), example_trace, example_remote\<lparr>remote_head := ''commit1''\<rparr>) \<and>
   always_resolves example_env \<and>
   announced example_trace \<and>
   notifications example_trace =
     [ToastInfo msg_fetching_branch, ToastInfo (msg_processing ''post-a''),
      ToastInfo msg_creating_tree, ToastInfo msg_creating_commit,
      ToastInfo msg_updating_branch, ToastSuccess msg_success] \<and>
   last example_trace = ToastSuccess msg_success \<and>
   run tree_rejecting_env example_cfg (Some [''post-b'']) example_remote =
     (Inl rejected, tree_rejected_trace, example_remote) \<and>
   announced tree_rejected_trace \<and>
   notifications tree_rejected_trace =
     [ToastInfo msg_fetching_branch, ToastInfo (msg_processing ''post-b''),
      ToastInfo msg_creating_tree] \<and>
   \<not> list_ex is_success_toast tree_rejected_trace \<and>
   rejected_call (last tree_rejected_trace)"
proof -
  have e: "always_resolves example_env"
    by (simp add: always_resolves_def constructs_def example_env_def)
  have a: "announced example_trace"
    by (simp add: example_trace_def imagesPath_def)
  have n: "notifications example_trace =
     [ToastInfo msg_fetching_branch, ToastInfo (msg_processing ''post-a''),
      ToastInfo msg_creating_tree, ToastInfo msg_creating_commit,
      ToastInfo msg_updating_branch, ToastSuccess msg_success]"
    by (simp add: example_trace_def)
  have l: "last example_trace = ToastSuccess msg_success"
    by (simp add: example_trace_def)
  have b: "announced tree_rejected_trace"
    by (simp add: tree_rejected_trace_def imagesPath_def)
  have f: "notifications tree_rejected_trace =
     [ToastInfo msg_fetching_branch, ToastInfo (msg_processing ''post-b''),
      ToastInfo msg_creating_tree]"
    by (simp add: tree_rejected_trace_def)
  have s: "\<not> list_ex is_success_toast tree_rejected_trace"
    by (simp add: tree_rejected_trace_def)
  have r: "rejected_call (last tree_rejected_trace)"
    by (simp add: tree_rejected_trace_def rejected_def)
  show ?thesis
    using progress_notifications [OF _ example_run] progress_notifications [OF _ tree_rejected_run]
      e a n l b f s r
    by (simp add: example_run tree_rejected_run)
qed

section \<open>The credential comes first\<close>

lemma credential_rejected:
  assumes "slugs \<noteq> []" and "run env cfg (Some slugs) w = (res, tr, w')"
   and "getAuthToken env w = (Inl e, w1)"
  shows "res = Inl e \<and> tr = [EvGetAuthToken (Inl e)] \<and> w' = w1"
    using assms
    by (simp add: run_def batchDeleteBlogs_def await_def call_getAuthToken_def)

lemma credential_first:
  assumes "slugs \<noteq> []" and "run env cfg (Some slugs) w = (res, tr, w')"
  shows "list_ex is_storage_call tr \<longrightarrow> (\<exists>token rest. tr = EvGetAuthToken (Inr token) # rest)"
    using run_transaction [OF assms]
    by cases (simp_all add: shape_defs)

text \<open>
  C9. For a non-empty slug list, if the credential request is rejected, the function
  rejects with that error and the request is the only event of the run: no branch read, no
  listing and no other call to the repository host is made, and nothing is shown. In every
  run that does call the repository host, the first event is a credential request that
  returned a token.
\<close>

theorem credential_before_storage:
  assumes "slugs \<noteq> []" and "run env cfg (Some slugs) w = (res, tr, w')"
  shows "(\<forall>e w1. getAuthToken env w = (Inl e, w1) \<longrightarrow>
            res = Inl e \<and> tr = [EvGetAuthToken (Inl e)] \<and> w' = w1) \<and>
         (list_ex is_storage_call tr \<longrightarrow>
            (\<exists>token rest. tr = EvGetAuthToken (Inr token) # rest))"
  using credential_rejected [OF assms] credential_first [OF assms] by blast

theorem credential_before_storage_witness:
  "[''post-a''] \<noteq> [] \<and>
   getAuthToken no_credential_env example_remote = (Inl rejected, example_remote) \<and>
   run no_credential_env example_cfg (Some [''post-a'']) example_remote =
     (Inl rejected, [EvGetAuthToken (Inl rejected)], example_remote) \<and>
   run example_env example_cfg (Some [''post-a'']) example_remote =
     (Inr (), example_trace, example_remote\<lparr>remote_head := ''commit1''\<rparr>) \<and>
   list_ex is_storage_call example_trace \<and>
   hd example_trace = EvGetAuthToken (Inr ''token'')"
proof -
  have g: "getAuthToken no_credential_env example_remote = (Inl rejected, example_remote)"
    by (simp add: no_credential_env_def example_env_def)
  have s: "list_ex is_storage_call example_trace"
    by (simp add: example_trace_def)
  have f: "hd example_trace = EvGetAuthToken (Inr ''token'')"
    by (simp add: example_trace_def)
  show ?thesis
    using credential_before_storage [OF _ no_credential_run]
      credential_before_storage [OF _ example_run] g s f
    by (simp add: no_credential_run example_run)
qed

section \<open>The base of the tree is the parent of the commit\<close>

text \<open>
  C10. A run reads the branch head at most once. Every tree it asks for is based on the
  commit that read returned, and every commit it asks for has that commit as its only
  parent; so the base of the tree and the parent of the commit are the same commit.
\<close>

theorem tree_base_is_commit_parent:
  assumes "run env cfg slugs_arg w = (res, tr, w')"
  shows "length (filter is_getRef tr) \<le> 1 \<and>
         (\<forall>base \<in> set (tree_bases tr). head_reads tr = [base]) \<and>
         (\<forall>parents \<in> set (commit_parents tr).
            parents = tree_bases tr \<and> parents = head_reads tr \<and> length parents = 1)"
proof (cases "slugs_arg = None \<or> slugs_arg = Some []")
  case True
  with assms have "tr = []"
    by (auto simp: run_def batchDeleteBlogs_def throw_def)
  then show ?thesis by (simp add: observer_defs)
next
  case False
  then obtain slugs where "slugs_arg = Some slugs" "slugs \<noteq> []" by auto
  with assms have "transaction cfg slugs tr res" by (simp add: run_transaction)
  then show ?thesis
    by cases (simp_all add: shape_defs observer_defs loop_silent)
qed

theorem tree_base_is_commit_parent_witness:
  "run example_env example_cfg (Some [''post-a'']) example_remote =
     (Inr (), example_trace, example_remote\<lparr>remote_head := ''commit1''\<rparr>) \<and>
   head_reads example_trace = [''commit0''] \<and>
   tree_bases example_trace = [''commit0''] \<and>
   commit_parents example_trace = [[''commit0'']]"
proof -
  have h: "head_reads example_trace = [''commit0'']"
    by (simp add: example_trace_def observer_defs)
  have t: "tree_bases example_trace = [''commit0'']"
    by (simp add: example_trace_def observer_defs)
  have p: "commit_parents example_trace = [[''commit0'']]"
    by (simp add: example_trace_def observer_defs)
  show ?thesis
    using tree_base_is_commit_parent [OF example_run] h t p
    by (simp add: example_run)
qed

end
